theory Spec2Isabelle
  imports Complex_Main "HOL-Library.Log_Nat" "HOL-Library.AList"
begin

section \<open>Data model\<close>

text \<open>
  The server keeps all of its state in process memory: the \<open>users\<close> and \<open>transactions\<close>
  maps of the route modules and the four stores of the \<open>EmailService\<close> singleton. The
  model is one record holding these stores, together with the values the process reads
  from its environment (clock, random sources, the mail transport), each as the stream of
  values still to be read. A handler is a function from the state before to a result and
  the state after; an exception is an \<open>Inl\<close> result, and the state returned with it is
  the state at the moment of the throw. Each handler is modelled as running alone, from its
  first statement to its response.
\<close>

subsection \<open>JavaScript numbers\<close>

text \<open>
  A JavaScript number is an IEEE-754 double: a finite value (kept here as the rational it
  denotes), one of the two infinities, or NaN. The two zeros are identified; no operation
  of this program tells them apart.
\<close>

datatype jsnum = Num rat | PosInf | NegInf | NaN

text \<open>
  Arithmetic on finite values rounds the exact result to the nearest double, ties to the
  even significand. \<open>ilog2 x\<close> is the binary exponent \<open>\<lfloor>log\<^sub>2 x\<rfloor>\<close> of a positive
  rational, \<open>quantum x\<close> the exponent of the unit in the last place of the doubles around
  \<open>x\<close> (53-bit significands, subnormals below \<open>2\<^sup>-\<^sup>1\<^sup>0\<^sup>2\<^sup>2\<close>), and a rounded magnitude of
  \<open>2\<^sup>1\<^sup>0\<^sup>2\<^sup>4\<close> or more overflows to an infinity.
\<close>

definition ilog2 :: "rat \<Rightarrow> int" where
  "ilog2 x = (let (p, q) = quotient_of x;
                  d = bitlen p - bitlen q
              in if 2 powi d \<le> x then d else d - 1)"

definition round_half_even :: "rat \<Rightarrow> int" where
  "round_half_even y =
     (let f = \<lfloor>y\<rfloor>; d = y - of_int f
      in if d < 1 / 2 then f else if 1 / 2 < d then f + 1 else if even f then f else f + 1)"

definition quantum :: "rat \<Rightarrow> int" where
  "quantum x = max (ilog2 \<bar>x\<bar> - 52) (- 1074)"

definition round_double :: "rat \<Rightarrow> rat" where
  "round_double x =
     (if x = 0 then 0
      else of_int (round_half_even (x / 2 powi quantum x)) * 2 powi quantum x)"

definition to_double :: "rat \<Rightarrow> jsnum" where
  "to_double x =
     (let y = round_double x
      in if y = 0 then Num 0
         else if 1024 \<le> ilog2 \<bar>y\<bar> then (if 0 < y then PosInf else NegInf)
         else Num y)"

text \<open>A rational is (the value of) a finite double when rounding leaves it unchanged.\<close>

definition is_double :: "rat \<Rightarrow> bool" where
  "is_double x \<longleftrightarrow> to_double x = Num x"

text \<open>
  The operators the program applies to numbers: unary minus, \<open>+\<close>, \<open>-\<close>, \<open>*\<close>, \<open><\<close>,
  \<open><=\<close>, truthiness (\<open>!x\<close> is its negation) and \<open>Math.floor\<close>.
\<close>

fun js_neg :: "jsnum \<Rightarrow> jsnum" where
  "js_neg (Num a) = Num (- a)"
| "js_neg PosInf = NegInf"
| "js_neg NegInf = PosInf"
| "js_neg NaN = NaN"

fun js_add :: "jsnum \<Rightarrow> jsnum \<Rightarrow> jsnum" where
  "js_add (Num a) (Num b) = to_double (a + b)"
| "js_add NaN y = NaN"
| "js_add x NaN = NaN"
| "js_add PosInf NegInf = NaN"
| "js_add NegInf PosInf = NaN"
| "js_add PosInf y = PosInf"
| "js_add NegInf y = NegInf"
| "js_add (Num a) y = y"

definition js_sub :: "jsnum \<Rightarrow> jsnum \<Rightarrow> jsnum" where
  "js_sub x y = js_add x (js_neg y)"

fun js_mul :: "jsnum \<Rightarrow> jsnum \<Rightarrow> jsnum" where
  "js_mul (Num a) (Num b) = to_double (a * b)"
| "js_mul NaN y = NaN"
| "js_mul x NaN = NaN"
| "js_mul (Num a) y = (if a = 0 then NaN else if 0 < a then y else js_neg y)"
| "js_mul x (Num b) = (if b = 0 then NaN else if 0 < b then x else js_neg x)"
| "js_mul PosInf y = y"
| "js_mul NegInf y = js_neg y"

fun js_less :: "jsnum \<Rightarrow> jsnum \<Rightarrow> bool" where
  "js_less (Num a) (Num b) = (a < b)"
| "js_less NaN y = False"
| "js_less x NaN = False"
| "js_less x NegInf = False"
| "js_less PosInf y = False"
| "js_less NegInf y = True"
| "js_less (Num a) PosInf = True"

fun js_less_eq :: "jsnum \<Rightarrow> jsnum \<Rightarrow> bool" where
  "js_less_eq (Num a) (Num b) = (a \<le> b)"
| "js_less_eq NaN y = False"
| "js_less_eq x NaN = False"
| "js_less_eq NegInf y = True"
| "js_less_eq x PosInf = True"
| "js_less_eq x NegInf = False"
| "js_less_eq PosInf y = False"

fun truthy :: "jsnum \<Rightarrow> bool" where
  "truthy (Num a) = (a \<noteq> 0)"
| "truthy NaN = False"
| "truthy x = True"

fun Math_floor :: "jsnum \<Rightarrow> jsnum" where
  "Math_floor (Num a) = Num (of_int \<lfloor>a\<rfloor>)"
| "Math_floor x = x"

text \<open>
  \<open>parseFloat(amount)\<close> for an \<open>amount\<close> that is a number: the number is converted to
  its shortest round-tripping string and parsed back, which returns the same number.
\<close>

definition parseFloat :: "jsnum \<Rightarrow> jsnum" where
  "parseFloat x = x"

text \<open>
  \<open>Number.prototype.toString()\<close>, for the numbers whose rendering is the plain decimal
  numeral: integers of magnitude below \<open>10\<^sup>2\<^sup>1\<close>, and the three special values. The result
  is \<open>None\<close> for every other number (fractions, and integers printed in exponent
  notation).
\<close>

definition digit_char :: "int \<Rightarrow> char" where
  "digit_char d = ''0123456789'' ! nat d"

function show_digits :: "int \<Rightarrow> string" where
  "show_digits n = (if n < 10 then [digit_char n] else show_digits (n div 10) @ [digit_char (n mod 10)])"
  by pat_completeness auto
termination
  by (relation "measure nat") auto

declare show_digits.simps [simp del]

definition js_toString :: "jsnum \<Rightarrow> string option" where
  "js_toString x =
     (case x of
        NaN \<Rightarrow> Some ''NaN''
      | PosInf \<Rightarrow> Some ''Infinity''
      | NegInf \<Rightarrow> Some ''-Infinity''
      | Num a \<Rightarrow>
          if a = of_int \<lfloor>a\<rfloor> \<and> \<bar>a\<bar> < 10 ^ 21
          then Some ((if a < 0 then ''-'' else []) @ show_digits \<bar>\<lfloor>a\<rfloor>\<bar>)
          else None)"


subsection \<open>Records of the stores\<close>

text \<open>A user object, as created by \<open>POST /auth/register\<close>.\<close>

record user =
  user_id :: string
  name :: string
  email :: string
  phone :: string
  password :: string
  verified :: bool
  balance :: jsnum
  createdAt :: int

text \<open>
  A stored transaction is a plain object. \<open>POST /transactions/send\<close> and
  \<open>POST /transactions/request\<close> store objects with different property names in the same
  map, so every property that only one of them sets is optional here: \<open>None\<close> is
  JavaScript's \<open>undefined\<close> for a property the object does not have. Timestamps are ISO
  strings of millisecond instants in the source and the instants themselves here.
\<close>

record transaction =
  tx_id :: string
  senderEmail :: "string option"
  senderName :: "string option"
  recipientEmail :: "string option"
  recipientName :: "string option"
  requesterEmail :: "string option"
  requesterName :: "string option"
  requesteeEmail :: "string option"
  amount :: jsnum
  tx_note :: string
  timestamp :: int
  status :: string

text \<open>An entry of \<open>verificationCodes\<close>.\<close>

record verification =
  code :: string
  expiresAt :: int
  attempts :: nat

text \<open>
  The message handed to the transport. Its \<open>html\<close> and \<open>text\<close> properties are template
  renderings that the program never reads back; the model keeps what they are rendered from.
\<close>

datatype email_content =
    VerificationMail string string
  | ReceiptMail transaction string
  | WelcomeMail string

record email_data =
  to :: string
  content :: email_content

text \<open>
  The id of a delivery is the string \<open>`${Date.now()}-${Math.random().toString(36).substr(2, 9)}`\<close>,
  kept as the pair of its two parts.
\<close>

type_synonym email_id = "int \<times> string"

record log_entry =
  log_id :: email_id
  log_to :: string
  log_type :: string
  log_timestamp :: int
  log_attempts :: nat
  success :: bool
  errors :: "(nat \<times> string \<times> int) list"
  completedAt :: "int option"
  failedAt :: "int option"

text \<open>An entry of \<open>failedEmails\<close>: \<open>{ ...logEntry, emailData }\<close>.\<close>

record failed_email = log_entry +
  emailData :: email_data

text \<open>
  \<open>users\<close> maps an email to a reference to the user object, and \<open>heap\<close> gives the object
  behind each reference: the handlers mutate user objects through references they read
  earlier. \<open>transactions\<close> and \<open>failedEmails\<close> are JavaScript Maps whose iteration order
  (insertion order) is observable, so they are association lists. The last seven fields are
  the environment: \<open>clock\<close> the coming readings of \<open>Date.now()\<close> and \<open>new Date()\<close>,
  \<open>random\<close> the coming values of \<open>Math.random()\<close> in \<open>generateVerificationCode\<close>,
  \<open>suffixes\<close> the coming values of \<open>Math.random().toString(36).substr(2, 9)\<close>,
  \<open>txids\<close> those of \<open>crypto.randomBytes(6).toString('hex').toUpperCase()\<close>, \<open>uuids\<close>
  those of \<open>uuidv4()\<close>, \<open>hashes\<close> those of \<open>bcrypt.hash(password, 12)\<close>, and \<open>mailer\<close> the outcomes of the coming calls of
  \<open>sgMail.send\<close> (\<open>None\<close> for delivered, \<open>Some msg\<close> for an exception with that message).
  \<open>slept\<close> records the delays the process has waited for, oldest first.
\<close>

record server =
  users :: "string \<rightharpoonup> nat"
  heap :: "nat \<Rightarrow> user"
  allocated :: nat
  transactions :: "(string \<times> transaction) list"
  verificationCodes :: "string \<rightharpoonup> verification"
  rateLimits :: "string \<rightharpoonup> int list"
  failedEmails :: "(email_id \<times> failed_email) list"
  emailLogs :: "log_entry list"
  slept :: "nat list"
  clock :: "nat \<Rightarrow> int"
  random :: "nat \<Rightarrow> rat"
  suffixes :: "nat \<Rightarrow> string"
  txids :: "nat \<Rightarrow> string"
  uuids :: "nat \<Rightarrow> string"
  hashes :: "nat \<Rightarrow> string"
  mailer :: "nat \<Rightarrow> string option"

text \<open>
  The exceptions thrown by the email service, one constructor per message. \<open>TypeError\<close>
  is the property access on \<open>undefined\<close> that follows a delivery returning without a
  result; \<open>NotModelled\<close> stands for a step outside the model (a number that
  \<open>js_toString\<close> does not render).
\<close>

datatype error =
    VerificationNotFound
  | Expired
  | AttemptsExhausted
  | InvalidCode
  | RateLimitExceeded
  | DeliveryFailed nat string
  | FailedEmailNotFound
  | RetryFailed error
  | TypeError
  | NotModelled

subsection \<open>Reading the environment\<close>

definition Date_now :: "server \<Rightarrow> int \<times> server" where
  "Date_now s = (clock s 0, s\<lparr>clock := (\<lambda>n. clock s (Suc n))\<rparr>)"

definition sgMail_send :: "server \<Rightarrow> string option \<times> server" where
  "sgMail_send s = (mailer s 0, s\<lparr>mailer := (\<lambda>n. mailer s (Suc n))\<rparr>)"

definition next_suffix :: "server \<Rightarrow> string \<times> server" where
  "next_suffix s = (suffixes s 0, s\<lparr>suffixes := (\<lambda>n. suffixes s (Suc n))\<rparr>)"

definition Math_random :: "server \<Rightarrow> jsnum \<times> server" where
  "Math_random s = (Num (random s 0), s\<lparr>random := (\<lambda>n. random s (Suc n))\<rparr>)"

definition randomBytes_hex :: "server \<Rightarrow> string \<times> server" where
  "randomBytes_hex s = (txids s 0, s\<lparr>txids := (\<lambda>n. txids s (Suc n))\<rparr>)"

definition uuidv4 :: "server \<Rightarrow> string \<times> server" where
  "uuidv4 s = (uuids s 0, s\<lparr>uuids := (\<lambda>n. uuids s (Suc n))\<rparr>)"

definition bcrypt_hash :: "server \<Rightarrow> string \<times> server" where
  "bcrypt_hash s = (hashes s 0, s\<lparr>hashes := (\<lambda>n. hashes s (Suc n))\<rparr>)"

definition setTimeout :: "nat \<Rightarrow> server \<Rightarrow> server" where
  "setTimeout delay s = s\<lparr>slept := slept s @ [delay]\<rparr>"

section \<open>Code generator\<close>

text \<open>\<open>generateVerificationCode\<close> of the code generator module, given the value of \<open>Math.random()\<close>.\<close>

definition generateVerificationCode :: "jsnum \<Rightarrow> string option" where
  "generateVerificationCode r = js_toString (Math_floor (js_add (Num 100000) (js_mul r (Num 900000))))"

text \<open>\<open>generateTransactionId\<close>: \<open>'TX-'\<close> and twelve upper-case hex digits.\<close>

definition generateTransactionId :: "server \<Rightarrow> string \<times> server" where
  "generateTransactionId s = (let (h, s1) = randomBytes_hex s in (''TX-'' @ h, s1))"

section \<open>Email service\<close>

subsection \<open>Verification codes\<close>

text \<open>
  \<open>EmailService.verifyCode\<close>. The clock is read only after the record was found. A
  mismatch increments the counter of the stored record and leaves the record in the map.
\<close>

definition verifyCode :: "string \<Rightarrow> string \<Rightarrow> server \<Rightarrow> (error + bool) \<times> server" where
  "verifyCode mail inputCode s =
     (case verificationCodes s mail of
        None \<Rightarrow> (Inl VerificationNotFound, s)
      | Some stored \<Rightarrow>
          (let (t, s1) = Date_now s in
           if t > expiresAt stored then
             (Inl Expired, s1\<lparr>verificationCodes := (verificationCodes s1)(mail := None)\<rparr>)
           else if attempts stored \<ge> 3 then
             (Inl AttemptsExhausted, s1\<lparr>verificationCodes := (verificationCodes s1)(mail := None)\<rparr>)
           else if code stored \<noteq> inputCode then
             (Inl InvalidCode,
              s1\<lparr>verificationCodes :=
                   (verificationCodes s1)(mail \<mapsto> stored\<lparr>attempts := attempts stored + 1\<rparr>)\<rparr>)
           else
             (Inr True, s1\<lparr>verificationCodes := (verificationCodes s1)(mail := None)\<rparr>)))"

subsection \<open>Rate limit of verification emails\<close>

text \<open>
  \<open>EmailService.checkRateLimit\<close>: at most 3 entries per key within the last hour. The
  pruned list is stored before the limit is tested, so it is stored also when the call
  throws.
\<close>

definition checkRateLimit :: "string \<Rightarrow> string \<Rightarrow> server \<Rightarrow> (error + unit) \<times> server" where
  "checkRateLimit mail type s =
     (let key = mail @ '':'' @ type;
          (t, s1) = Date_now s;
          hourAgo = t - (60 * 60 * 1000);
          s2 = (if rateLimits s1 key = None then s1\<lparr>rateLimits := (rateLimits s1)(key \<mapsto> [])\<rparr> else s1);
          attempts = (case rateLimits s2 key of Some a \<Rightarrow> a | None \<Rightarrow> []);
          recentAttempts = filter (\<lambda>timestamp. timestamp > hourAgo) attempts;
          s3 = s2\<lparr>rateLimits := (rateLimits s2)(key \<mapsto> recentAttempts)\<rparr>
      in if length recentAttempts \<ge> 3 then (Inl RateLimitExceeded, s3)
         else (Inr (), s3\<lparr>rateLimits := (rateLimits s3)(key \<mapsto> recentAttempts @ [t])\<rparr>))"

subsection \<open>Delivery with retries\<close>

text \<open>
  The delay before attempt \<open>attempt\<close> of \<open>sendEmailWithRetry\<close>:
  \<open>Math.pow(2, attempt - 2) * 2000\<close> when \<open>attempt > 1\<close>, and no wait before the first
  attempt. The values are integers far below \<open>2^53\<close>, where double arithmetic is exact.
\<close>

definition backoff_delay :: "nat \<Rightarrow> nat" where
  "backoff_delay attempt = (if attempt > 1 then 2 ^ (attempt - 2) * 2000 else 0)"

text \<open>
  The body of the \<open>for\<close> loop of \<open>sendEmailWithRetry\<close>, from attempt \<open>attempt\<close> on. The
  result \<open>Inr (Some (emailId, n))\<close> is the object \<open>{ success: true, emailId, attempts: n }\<close>;
  \<open>Inr None\<close> is the loop running out without a \<open>return\<close> (the function then returns
  \<open>undefined\<close>), which happens only for \<open>maxRetries < 1\<close>.
\<close>

function attempt_loop ::
  "email_data \<Rightarrow> nat \<Rightarrow> email_id \<Rightarrow> nat \<Rightarrow> log_entry \<Rightarrow> server
     \<Rightarrow> (error + (email_id \<times> nat) option) \<times> server" where
  "attempt_loop msg maxRetries emailId attempt logEntry s =
     (if attempt \<le> maxRetries then
        (let logEntry1 = logEntry\<lparr>log_attempts := attempt\<rparr>;
             s1 = (if attempt > 1 then setTimeout (backoff_delay attempt) s else s);
             outcome = fst (sgMail_send s1);
             s2 = snd (sgMail_send s1)
         in case outcome of
              None \<Rightarrow>
                (let logEntry2 = logEntry1\<lparr>success := True, completedAt := Some (fst (Date_now s2))\<rparr>;
                     s3 = snd (Date_now s2);
                     s4 = s3\<lparr>emailLogs := emailLogs s3 @ [logEntry2]\<rparr>
                 in (Inr (Some (emailId, attempt)),
                     s4\<lparr>failedEmails := AList.delete emailId (failedEmails s4)\<rparr>))
            | Some message \<Rightarrow>
                (let errorMsg = (if message = [] then ''Unknown error'' else message);
                     logEntry2 = logEntry1\<lparr>errors := errors logEntry1 @ [(attempt, errorMsg, fst (Date_now s2))]\<rparr>;
                     s3 = snd (Date_now s2)
                 in if attempt = maxRetries then
                      (let logEntry3 = logEntry2\<lparr>success := False, failedAt := Some (fst (Date_now s3))\<rparr>;
                           s4 = snd (Date_now s3);
                           s5 = s4\<lparr>emailLogs := emailLogs s4 @ [logEntry3]\<rparr>
                       in (Inl (DeliveryFailed maxRetries errorMsg),
                           s5\<lparr>failedEmails :=
                                AList.update emailId
                                  (log_entry.extend logEntry3 (failed_email.fields msg))
                                  (failedEmails s5)\<rparr>))
                    else attempt_loop msg maxRetries emailId (attempt + 1) logEntry2 s3))
      else (Inr None, s))"
  by pat_completeness auto
termination
  by (relation "measure (\<lambda>(msg, maxRetries, emailId, attempt, logEntry, s). maxRetries + 1 - attempt)") auto

declare attempt_loop.simps [simp del]

text \<open>\<open>EmailService.sendEmailWithRetry(emailData, type, maxRetries)\<close>.\<close>

definition sendEmailWithRetry ::
  "email_data \<Rightarrow> string \<Rightarrow> nat \<Rightarrow> server \<Rightarrow> (error + (email_id \<times> nat) option) \<times> server" where
  "sendEmailWithRetry msg type maxRetries s =
     (let (t, s1) = Date_now s;
          (r, s2) = next_suffix s1;
          emailId = (t, r);
          (t', s3) = Date_now s2;
          logEntry = \<lparr>log_id = emailId, log_to = to msg, log_type = type, log_timestamp = t',
                      log_attempts = 0, success = False, errors = [],
                      completedAt = None, failedAt = None\<rparr>
      in attempt_loop msg maxRetries emailId 1 logEntry s3)"

text \<open>\<open>EmailService.getFailedEmails\<close> and \<open>EmailService.retryFailedEmail\<close>.\<close>

definition getFailedEmails :: "server \<Rightarrow> failed_email list" where
  "getFailedEmails s = map snd (failedEmails s)"

definition retryFailedEmail ::
  "email_id \<Rightarrow> server \<Rightarrow> (error + (email_id \<times> nat) option) \<times> server" where
  "retryFailedEmail emailId s =
     (case map_of (failedEmails s) emailId of
        None \<Rightarrow> (Inl FailedEmailNotFound, s)
      | Some failedEmail \<Rightarrow>
          (case sendEmailWithRetry (emailData failedEmail) (log_type failedEmail) 3 s of
             (Inr result, s') \<Rightarrow> (Inr result, s')
           | (Inl error, s') \<Rightarrow> (Inl (RetryFailed error), s')))"

subsection \<open>Messages of the service\<close>

text \<open>
  \<open>EmailService.sendVerificationCode\<close>. The rate limit is charged and the new record
  replaces the old one before the delivery starts; an exception of the delivery is logged
  and thrown again. The result is the pair of \<open>expiresAt\<close> and \<open>emailId\<close>.
\<close>

definition sendVerificationCode ::
  "string \<Rightarrow> string \<Rightarrow> server \<Rightarrow> (error + int \<times> email_id) \<times> server" where
  "sendVerificationCode mail nm s =
     (case checkRateLimit mail ''verification'' s of
        (Inl e, s1) \<Rightarrow> (Inl e, s1)
      | (Inr _, s1) \<Rightarrow>
          (let (r, s2) = Math_random s1 in
           case generateVerificationCode r of
             None \<Rightarrow> (Inl NotModelled, s2)
           | Some c \<Rightarrow>
               (let (t, s3) = Date_now s2;
                    expires = t + 10 * 60 * 1000;
                    s4 = s3\<lparr>verificationCodes :=
                           (verificationCodes s3)(mail \<mapsto> \<lparr>code = c, expiresAt = expires, attempts = 0\<rparr>)\<rparr>;
                    msg = \<lparr>to = mail, content = VerificationMail nm c\<rparr>
                in case sendEmailWithRetry msg ''verification'' 3 s4 of
                     (Inl e, s5) \<Rightarrow> (Inl e, s5)
                   | (Inr None, s5) \<Rightarrow> (Inl TypeError, s5)
                   | (Inr (Some (emailId, n)), s5) \<Rightarrow> (Inr (expires, emailId), s5))))"

text \<open>
  \<open>EmailService.sendTransactionReceipt(email, { ...transaction, type })\<close>; the result is
  the \<open>emailId\<close>.
\<close>

definition sendTransactionReceipt ::
  "string \<Rightarrow> transaction \<Rightarrow> string \<Rightarrow> server \<Rightarrow> (error + email_id) \<times> server" where
  "sendTransactionReceipt mail tx type s =
     (case sendEmailWithRetry \<lparr>to = mail, content = ReceiptMail tx type\<rparr> ''receipt'' 3 s of
        (Inl e, s1) \<Rightarrow> (Inl e, s1)
      | (Inr None, s1) \<Rightarrow> (Inl TypeError, s1)
      | (Inr (Some (emailId, n)), s1) \<Rightarrow> (Inr emailId, s1))"

text \<open>The \<open>message\<close> property of each exception.\<close>

fun message :: "error \<Rightarrow> string" where
  "message VerificationNotFound = ''No verification code found. Please request a new one.''"
| "message Expired = ''Verification code has expired. Please request a new one.''"
| "message AttemptsExhausted = ''Too many failed attempts. Please request a new code.''"
| "message InvalidCode = ''Invalid verification code.''"
| "message RateLimitExceeded = ''Rate limit exceeded. Please wait before requesting another code.''"
| "message (DeliveryFailed n errorMsg) =
     ''Failed to send email after '' @ show_digits (int n) @ '' attempts: '' @ errorMsg"
| "message FailedEmailNotFound = ''Failed email not found''"
| "message (RetryFailed e) = ''Retry failed: '' @ message e"
| "message TypeError = ''Cannot read properties of undefined (reading 'emailId')''"
| "message NotModelled = []"

section \<open>Routes\<close>

text \<open>
  A handler receives the fields of the JSON body, each possibly absent, and (behind
  \<open>authenticateToken\<close>) the email of the token as \<open>req.user.email\<close>. The model types
  the body: emails, names and notes are strings and amounts are numbers. \<open>!x\<close> holds of
  an absent or empty string, and of an absent, zero or NaN number.
\<close>

definition missing :: "string option \<Rightarrow> bool" where
  "missing x = (case x of None \<Rightarrow> True | Some v \<Rightarrow> v = [])"

definition no_amount :: "jsnum option \<Rightarrow> bool" where
  "no_amount x = (case x of None \<Rightarrow> True | Some v \<Rightarrow> \<not> truthy v)"

text \<open>The entries of a transaction list, as \<open>GET /transactions/history\<close> builds them.\<close>

record tx_view =
  view_id :: string
  view_type :: string
  view_name :: "string option"
  view_email :: "string option"
  view_amount :: jsnum
  view_note :: string
  view_timestamp :: int
  view_status :: string

text \<open>
  The responses: an error response carries the status, the \<open>error\<close> text and the optional
  \<open>code\<close>; the others are the 2xx bodies of the five handlers. The \<open>transaction\<close> and
  \<open>request\<close> objects of the bodies are transaction objects with fewer properties.
\<close>

datatype response =
    ErrorResponse nat string "string option"
  | Registered string
  | PaymentSent transaction jsnum
  | RequestSent transaction
  | TransactionList "tx_view list"
  | TransactionDetails tx_view

subsection \<open>Registration\<close>

text \<open>
  \<open>POST /auth/register\<close>. The user object is created and stored under its email before
  the verification email is sent; every exception of \<open>sendVerificationCode\<close> ends in the
  \<open>catch\<close> block, which answers 500 with the message of the exception.
\<close>

definition register ::
  "string option \<Rightarrow> string option \<Rightarrow> string option \<Rightarrow> string option \<Rightarrow> server
     \<Rightarrow> response \<times> server" where
  "register nm mail ph pw s =
     (case (nm, mail, ph, pw) of
        (Some nm', Some mail', Some ph', Some pw') \<Rightarrow>
          if nm' = [] \<or> mail' = [] \<or> ph' = [] \<or> pw' = [] then
            (ErrorResponse 400 ''All fields are required'' None, s)
          else if users s mail' \<noteq> None then
            (ErrorResponse 409 ''User already exists'' None, s)
          else if length pw' < 8 then
            (ErrorResponse 400 ''Password must be at least 8 characters long'' None, s)
          else
            (let (hashedPassword, s1) = bcrypt_hash s;
                 (uid, s2) = uuidv4 s1;
                 (t, s3) = Date_now s2;
                 u = \<lparr>user_id = uid, name = nm', email = mail', phone = ph',
                      password = hashedPassword, verified = False, balance = Num 0,
                      createdAt = t\<rparr>;
                 s4 = s3\<lparr>users := (users s3)(mail' \<mapsto> allocated s3),
                         heap := (heap s3)(allocated s3 := u),
                         allocated := Suc (allocated s3)\<rparr>
             in case sendVerificationCode mail' nm' s4 of
                  (Inl e, s5) \<Rightarrow>
                    (ErrorResponse 500 (if message e = [] then ''Registration failed'' else message e) None, s5)
                | (Inr _, s5) \<Rightarrow> (Registered uid, s5))
      | _ \<Rightarrow> (ErrorResponse 400 ''All fields are required'' None, s))"

subsection \<open>Transactions\<close>

text \<open>
  \<open>POST /transactions/send\<close>. \<open>sender\<close> and \<open>recipient\<close> are references read from
  \<open>users\<close> before any balance changes; the debit and the credit each read and write the
  object behind the reference at that moment (\<open>users.set\<close> with the reference just
  read leaves the map as it is). Exceptions of the receipt emails are caught
  and dropped; the recipient's receipt is inside the same \<open>try\<close> block, after the
  sender's.
\<close>

definition send_receipts :: "string \<Rightarrow> string \<Rightarrow> bool \<Rightarrow> transaction \<Rightarrow> server \<Rightarrow> server" where
  "send_receipts senderMail recipientMail toRecipient tx s =
     (case sendTransactionReceipt senderMail tx ''sent'' s of
        (Inl e, s1) \<Rightarrow> s1
      | (Inr _, s1) \<Rightarrow>
          if toRecipient then snd (sendTransactionReceipt recipientMail tx ''received'' s1) else s1)"

definition send ::
  "string \<Rightarrow> string option \<Rightarrow> jsnum option \<Rightarrow> string option \<Rightarrow> server \<Rightarrow> response \<times> server" where
  "send senderMail recipientField amountField noteField s =
     (case (recipientField, amountField) of
        (Some recipientMail, Some amt) \<Rightarrow>
          if recipientMail = [] \<or> \<not> truthy amt then
            (ErrorResponse 400 ''Recipient email and amount are required'' None, s)
          else if js_less_eq amt (Num 0) then
            (ErrorResponse 400 ''Amount must be greater than 0'' None, s)
          else
            (case users s senderMail of
               None \<Rightarrow> (ErrorResponse 404 ''Sender not found'' None, s)
             | Some sender \<Rightarrow>
                 if \<not> verified (heap s sender) then
                   (ErrorResponse 403 ''Please verify your email address before sending money''
                      (Some ''EMAIL_NOT_VERIFIED''), s)
                 else if js_less (balance (heap s sender)) amt then
                   (ErrorResponse 400 ''Insufficient funds'' None, s)
                 else
                   (let recipient = users s recipientMail;
                        recipientNm = (case recipient of
                                         Some r \<Rightarrow> name (heap s r)
                                       | None \<Rightarrow> takeWhile (\<lambda>c. c \<noteq> CHR ''@'') recipientMail);
                        (transactionId, s1) = generateTransactionId s;
                        (t, s2) = Date_now s1;
                        nt = (case noteField of None \<Rightarrow> [] | Some n \<Rightarrow> n);
                        tx = \<lparr>tx_id = transactionId,
                               senderEmail = Some senderMail, senderName = Some (name (heap s2 sender)),
                               recipientEmail = Some recipientMail, recipientName = Some recipientNm,
                               requesterEmail = None, requesterName = None, requesteeEmail = None,
                               amount = parseFloat amt, tx_note = nt, timestamp = t,
                               status = ''completed''\<rparr>;
                        s3 = s2\<lparr>heap := (heap s2)
                                 (sender := (heap s2 sender)
                                    \<lparr>balance := js_sub (balance (heap s2 sender)) (parseFloat amt)\<rparr>)\<rparr>;
                        s4 = (case recipient of
                                None \<Rightarrow> s3
                              | Some r \<Rightarrow>
                                  s3\<lparr>heap := (heap s3)
                                       (r := (heap s3 r)
                                          \<lparr>balance := js_add (balance (heap s3 r)) (parseFloat amt)\<rparr>)\<rparr>);
                        s5 = s4\<lparr>transactions := AList.update transactionId tx (transactions s4)\<rparr>;
                        s6 = send_receipts senderMail recipientMail (recipient \<noteq> None) tx s5
                    in (PaymentSent
                          (tx\<lparr>senderEmail := None, senderName := None\<rparr>)
                          (balance (heap s6 sender)), s6)))
      | _ \<Rightarrow> (ErrorResponse 400 ''Recipient email and amount are required'' None, s))"

text \<open>
  \<open>POST /transactions/request\<close>. The stored object has the properties
  \<open>requesterEmail\<close>, \<open>requesterName\<close> and \<open>requesteeEmail\<close>, and none of the four
  sender and recipient properties. It is stored in the same map as the payments. The
  request email is only logged to the console.
\<close>

definition request ::
  "string \<Rightarrow> string option \<Rightarrow> jsnum option \<Rightarrow> string option \<Rightarrow> server \<Rightarrow> response \<times> server" where
  "request requesterMail requesteeField amountField noteField s =
     (case (requesteeField, amountField) of
        (Some requesteeMail, Some amt) \<Rightarrow>
          if requesteeMail = [] \<or> \<not> truthy amt then
            (ErrorResponse 400 ''Requestee email and amount are required'' None, s)
          else if js_less_eq amt (Num 0) then
            (ErrorResponse 400 ''Amount must be greater than 0'' None, s)
          else
            (case users s requesterMail of
               None \<Rightarrow> (ErrorResponse 404 ''Requester not found'' None, s)
             | Some requester \<Rightarrow>
                 if \<not> verified (heap s requester) then
                   (ErrorResponse 403 ''Please verify your email address before requesting money''
                      (Some ''EMAIL_NOT_VERIFIED''), s)
                 else
                   (let (requestId, s1) = generateTransactionId s;
                        (t, s2) = Date_now s1;
                        nt = (case noteField of None \<Rightarrow> [] | Some n \<Rightarrow> n);
                        rq = \<lparr>tx_id = requestId,
                               senderEmail = None, senderName = None,
                               recipientEmail = None, recipientName = None,
                               requesterEmail = Some requesterMail,
                               requesterName = Some (name (heap s2 requester)),
                               requesteeEmail = Some requesteeMail,
                               amount = parseFloat amt, tx_note = nt, timestamp = t,
                               status = ''pending''\<rparr>;
                        s3 = s2\<lparr>transactions := AList.update requestId rq (transactions s2)\<rparr>
                    in (RequestSent (rq\<lparr>requesterEmail := None, requesterName := None\<rparr>), s3)))
      | _ \<Rightarrow> (ErrorResponse 400 ''Requestee email and amount are required'' None, s))"

text \<open>
  The object both read handlers build from a stored transaction for the user
  \<open>userEmail\<close>. \<open>transaction.recipientEmail === userEmail\<close> compares a property that may
  be \<open>undefined\<close> with a string.
\<close>

definition view_for :: "string \<Rightarrow> transaction \<Rightarrow> tx_view" where
  "view_for userEmail tx =
     (let isReceived = (recipientEmail tx = Some userEmail)
      in \<lparr>view_id = tx_id tx,
          view_type = (if isReceived then ''received'' else ''sent''),
          view_name = (if isReceived then senderName tx else recipientName tx),
          view_email = (if isReceived then senderEmail tx else recipientEmail tx),
          view_amount = amount tx, view_note = tx_note tx,
          view_timestamp = timestamp tx, view_status = status tx\<rparr>)"

definition involved :: "string \<Rightarrow> transaction \<Rightarrow> bool" where
  "involved userEmail tx \<longleftrightarrow> senderEmail tx = Some userEmail \<or> recipientEmail tx = Some userEmail"

text \<open>
  \<open>GET /transactions/history\<close>: the views of the transactions of the user, in the order
  of the map, then sorted by descending timestamp (\<open>Array.prototype.sort\<close> is stable).
\<close>

definition history :: "string \<Rightarrow> server \<Rightarrow> response" where
  "history userEmail s =
     TransactionList
       (sort_key (\<lambda>v. - view_timestamp v)
          (map (view_for userEmail) (filter (involved userEmail) (map snd (transactions s)))))"

text \<open>\<open>GET /transactions/:transactionId\<close>.\<close>

definition get_transaction :: "string \<Rightarrow> string \<Rightarrow> server \<Rightarrow> response" where
  "get_transaction transactionId userEmail s =
     (case map_of (transactions s) transactionId of
        None \<Rightarrow> ErrorResponse 404 ''Transaction not found'' None
      | Some tx \<Rightarrow>
          if senderEmail tx \<noteq> Some userEmail \<and> recipientEmail tx \<noteq> Some userEmail then
            ErrorResponse 403 ''Access denied'' None
          else TransactionDetails (view_for userEmail tx))"

section \<open>Auxiliary projections\<close>

text \<open>
  The stores that the delivery pipeline never writes: accounts, transactions, verification
  records and rate-limit windows.
\<close>

definition stores :: "server \<Rightarrow> (string \<rightharpoonup> nat) \<times> (nat \<Rightarrow> user) \<times> nat \<times> (string \<times> transaction) list \<times> (string \<rightharpoonup> verification) \<times> (string \<rightharpoonup> int list)" where
  "stores s = (users s, heap s, allocated s, transactions s, verificationCodes s, rateLimits s)"

text \<open>
  The error text the retry loop records for an outcome of the transport:
  \<open>error.message || 'Unknown error'\<close>.
\<close>

definition errorMsg_of :: "string option \<Rightarrow> string" where
  "errorMsg_of outcome = (case outcome of None \<Rightarrow> [] | Some e \<Rightarrow> if e = [] then ''Unknown error'' else e)"

section \<open>Example inputs\<close>

definition example_user :: user where
  "example_user = \<lparr>user_id = ''u-0'', name = ''Nobody'', email = ''nobody@example.com'',
     phone = ''+10000000000'', password = ''$2a$12$hash'', verified = False, balance = Num 0,
     createdAt = 0\<rparr>"

text \<open>
  An empty server whose transport fails on its first three calls and delivers from the
  fourth on; the clock advances by one second per reading.
\<close>

definition example_server :: server where
  "example_server = \<lparr>users = Map.empty, heap = (\<lambda>_. example_user), allocated = 0,
     transactions = [], verificationCodes = Map.empty, rateLimits = Map.empty,
     failedEmails = [], emailLogs = [], slept = [],
     clock = (\<lambda>n. 1700000000000 + 1000 * int n),
     random = (\<lambda>_. 1 / 2),
     suffixes = (\<lambda>n. if n = 0 then ''k3j2h1g0f'' else ''x9y8z7w6v''),
     txids = (\<lambda>n. if n = 0 then ''0123456789AB'' else ''CDEF01234567''),
     uuids = (\<lambda>_. ''11111111-2222-4333-8444-555555555555''),
     hashes = (\<lambda>_. ''$2a$12$C6UzMDM.H6dfI/f/IKcEeO''),
     mailer = (\<lambda>n. if n < 3 then Some ''Service Unavailable'' else None)\<rparr>"

definition example_mail :: email_data where
  "example_mail = \<lparr>to = ''alice@example.com'', content = WelcomeMail ''Alice''\<rparr>"

definition after_failed_delivery :: server where
  "after_failed_delivery = snd (sendEmailWithRetry example_mail ''welcome'' 3 example_server)"

definition example_codes :: server where
  "example_codes = example_server\<lparr>verificationCodes :=
     [''alice@example.com'' \<mapsto> \<lparr>code = ''123456'', expiresAt = 1700000600000, attempts = 0\<rparr>]\<rparr>"

definition after_three_wrong_codes :: server where
  "after_three_wrong_codes =
     snd (verifyCode ''alice@example.com'' ''000000''
       (snd (verifyCode ''alice@example.com'' ''000000''
         (snd (verifyCode ''alice@example.com'' ''000000'' example_codes)))))"

text \<open>
  Three accounts on the example server: Alice (verified, balance 100), Bob (not verified,
  balance 10.10) and Carol (verified, balance 10.30). A decimal literal of a JSON body
  denotes the double nearest to it.
\<close>

definition alice :: user where
  "alice = \<lparr>user_id = ''u-1'', name = ''Alice'', email = ''alice@example.com'',
     phone = ''+15550000001'', password = ''$2a$12$hash1'', verified = True, balance = Num 100,
     createdAt = 1690000000000\<rparr>"

definition bob :: user where
  "bob = \<lparr>user_id = ''u-2'', name = ''Bob'', email = ''bob@example.com'',
     phone = ''+15550000002'', password = ''$2a$12$hash2'', verified = False,
     balance = to_double (101 / 10), createdAt = 1690000000001\<rparr>"

definition carol :: user where
  "carol = \<lparr>user_id = ''u-3'', name = ''Carol'', email = ''carol@example.com'',
     phone = ''+15550000003'', password = ''$2a$12$hash3'', verified = True,
     balance = to_double (103 / 10), createdAt = 1690000000002\<rparr>"

definition example_bank :: server where
  "example_bank = example_server\<lparr>
     users := [''alice@example.com'' \<mapsto> 0, ''bob@example.com'' \<mapsto> 1, ''carol@example.com'' \<mapsto> 2],
     heap := (\<lambda>_. example_user)(0 := alice, 1 := bob, 2 := carol),
     allocated := 3\<rparr>"

text \<open>
  The same accounts with a transport that delivers the second message it is given and
  fails on every other one.
\<close>

definition example_bank_flaky :: server where
  "example_bank_flaky =
     example_bank\<lparr>mailer := (\<lambda>n. if n = 1 then None else Some ''Service Unavailable'')\<rparr>"


section \<open>Rounding to doubles\<close>

text \<open>\<open>ilog2\<close> is the binary exponent: \<open>2\<^bsup>ilog2 x\<^esup> \<le> x < 2\<^bsup>ilog2 x + 1\<^esup>\<close>.\<close>

lemma ilog2_bounds:
  assumes "0 < x"
  shows "2 powi (ilog2 x) \<le> x \<and> x < 2 powi (ilog2 x + 1)"
proof -
  obtain p q where pq: "quotient_of x = (p, q)" by (cases "quotient_of x")
  have q: "0 < q" using pq by (rule quotient_of_denom_pos)
  have x: "x = of_int p / of_int q" using pq by (rule quotient_of_div)
  have p: "0 < p" using assms q x by (simp add: zero_less_divide_iff)
  define a where "a = bitlen p"
  define b where "b = bitlen q"
  have a1: "1 \<le> a" using p by (simp add: a_def bitlen_alt_def)
  have b1: "1 \<le> b" using q by (simp add: b_def bitlen_alt_def)
  have pb: "(2::int) ^ nat (a - 1) \<le> p" "p < 2 ^ nat a"
    using bitlen_bounds[OF p] by (simp_all add: a_def)
  have qb: "(2::int) ^ nat (b - 1) \<le> q" "q < 2 ^ nat b"
    using bitlen_bounds[OF q] by (simp_all add: b_def)
  have pr: "(2::rat) powi (a - 1) \<le> of_int p" "of_int p < (2::rat) powi a"
  proof -
    have "(2::rat) powi (a - 1) = of_int (2 ^ nat (a - 1))" using a1 by (simp add: power_int_def)
    then show "(2::rat) powi (a - 1) \<le> of_int p" using pb(1) by (simp only: of_int_le_iff)
    have "(2::rat) powi a = of_int (2 ^ nat a)" using a1 by (simp add: power_int_def)
    then show "of_int p < (2::rat) powi a" using pb(2) by (simp only: of_int_less_iff)
  qed
  have qr: "(2::rat) powi (b - 1) \<le> of_int q" "of_int q < (2::rat) powi b"
  proof -
    have "(2::rat) powi (b - 1) = of_int (2 ^ nat (b - 1))" using b1 by (simp add: power_int_def)
    then show "(2::rat) powi (b - 1) \<le> of_int q" using qb(1) by (simp only: of_int_le_iff)
    have "(2::rat) powi b = of_int (2 ^ nat b)" using b1 by (simp add: power_int_def)
    then show "of_int q < (2::rat) powi b" using qb(2) by (simp only: of_int_less_iff)
  qed
  have up: "x < 2 powi (a - b + 1)"
  proof -
    have "of_int p / of_int q < (2::rat) powi a / 2 powi (b - 1)"
      using p pr(2) qr(1) by (intro frac_less) simp_all
    also have "(2::rat) powi a / 2 powi (b - 1) = 2 powi (a - (b - 1))"
      by (simp add: power_int_diff)
    finally show ?thesis by (simp add: x algebra_simps)
  qed
  have lo: "2 powi (a - b - 1) \<le> x"
  proof -
    have "(2::rat) powi (a - 1) / 2 powi b \<le> of_int p / of_int q"
      using p q pr(1) qr(2) by (intro frac_le) simp_all
    moreover have "(2::rat) powi (a - 1) / 2 powi b = 2 powi (a - 1 - b)"
      by (simp add: power_int_diff)
    ultimately show ?thesis by (simp add: x algebra_simps)
  qed
  have il: "ilog2 x = (if 2 powi (a - b) \<le> x then a - b else a - b - 1)"
    by (simp add: ilog2_def pq a_def b_def Let_def)
  show ?thesis
    using up lo by (auto simp: il)
qed

lemma pow2_less_iff: "(2::rat) powi a < 2 powi b \<longleftrightarrow> a < b"
proof
  assume lt: "(2::rat) powi a < 2 powi b"
  show "a < b"
  proof (rule ccontr)
    assume "\<not> a < b"
    then have "b \<le> a" by simp
    then have "(2::rat) powi b \<le> 2 powi a" by (intro power_int_increasing) simp_all
    with lt show False by simp
  qed
next
  assume "a < b"
  then show "(2::rat) powi a < 2 powi b" by (intro power_int_strict_increasing) simp_all
qed

lemma pow2_le_iff: "(2::rat) powi a \<le> 2 powi b \<longleftrightarrow> a \<le> b"
  using pow2_less_iff[of b a] by (simp add: not_less[symmetric])

lemma pow2_pos: "0 < (2::rat) powi e"
  by simp

lemma ilog2_unique:
  assumes "2 powi e \<le> x" and "x < 2 powi (e + 1)"
  shows "ilog2 x = e"
proof -
  have x: "0 < x" using assms(1) pow2_pos[of e] by linarith
  have "2 powi ilog2 x < (2::rat) powi (e + 1)" "2 powi e < (2::rat) powi (ilog2 x + 1)"
    using ilog2_bounds[OF x] assms by linarith+
  then show ?thesis by (simp add: pow2_less_iff)
qed

lemma ilog2_mono:
  assumes "0 < x" and "x \<le> y"
  shows "ilog2 x \<le> ilog2 y"
proof -
  have "2 powi ilog2 x < (2::rat) powi (ilog2 y + 1)"
    using ilog2_bounds[OF assms(1)] ilog2_bounds[of y] assms by linarith
  then show ?thesis by (simp add: pow2_less_iff)
qed

lemma ilog2_less:
  assumes "0 < x" and "x < 2 powi e"
  shows "ilog2 x < e"
proof -
  have "2 powi ilog2 x < (2::rat) powi e" using ilog2_bounds[OF assms(1)] assms(2) by linarith
  then show ?thesis by (simp add: pow2_less_iff)
qed

text \<open>Rounding to the nearest integer is monotone and fixes the integers.\<close>

lemma round_half_even_of_int: "round_half_even (of_int n) = n"
  by (simp add: round_half_even_def)

lemma round_half_even_cases:
  "round_half_even x = \<lfloor>x\<rfloor> \<and> x - of_int \<lfloor>x\<rfloor> \<le> 1 / 2 \<or>
   round_half_even x = \<lfloor>x\<rfloor> + 1 \<and> 1 / 2 \<le> x - of_int \<lfloor>x\<rfloor>"
  by (auto simp: round_half_even_def Let_def)

lemma round_half_even_mono:
  assumes "x \<le> y"
  shows "round_half_even x \<le> round_half_even y"
proof (cases "\<lfloor>x\<rfloor> = \<lfloor>y\<rfloor>")
  case True
  with assms show ?thesis
    by (auto simp: round_half_even_def Let_def)
next
  case False
  then have "\<lfloor>x\<rfloor> + 1 \<le> \<lfloor>y\<rfloor>" using floor_mono[OF assms] by simp
  then show ?thesis
    using round_half_even_cases[of x] round_half_even_cases[of y] by auto
qed

lemma round_half_even_ge: "of_int n \<le> y \<Longrightarrow> n \<le> round_half_even y"
  using round_half_even_mono[of "of_int n" y] by (simp add: round_half_even_of_int)

lemma round_half_even_le: "y \<le> of_int n \<Longrightarrow> round_half_even y \<le> n"
  using round_half_even_mono[of y "of_int n"] by (simp add: round_half_even_of_int)

lemma of_int_pow2: "0 \<le> n \<Longrightarrow> (of_int (2 ^ nat n) :: rat) = 2 powi n"
  by (simp add: power_int_def)

lemma of_int_pow2_52: "(of_int (2 ^ 52) :: rat) = 2 powi 52"
  using of_int_pow2[of 52] by simp

lemma pow2_diff: "(2::rat) powi a / 2 powi b = 2 powi (a - b)"
  by (simp add: power_int_diff)

lemma pow2_add: "(2::rat) powi a * 2 powi b = 2 powi (a + b)"
  by (simp add: power_int_add)

text \<open>
  Rounding to a double is monotone on the non-negative rationals: within one binade it is
  rounding to a multiple of the quantum, and across binades the power of two between the
  arguments is a double.
\<close>

lemma round_double_nonneg:
  assumes "0 \<le> x"
  shows "0 \<le> round_double x"
proof -
  have "(0::rat) \<le> x / 2 powi quantum x" using assms pow2_pos[of "quantum x"] by simp
  then have "0 \<le> round_half_even (x / 2 powi quantum x)"
    using round_half_even_ge[of 0] by simp
  then show ?thesis using pow2_pos[of "quantum x"] by (simp add: round_double_def)
qed

lemma round_double_mono_pos:
  assumes x: "0 < x" and xy: "x \<le> y"
  shows "round_double x \<le> round_double y"
proof -
  have y: "0 < y" using x xy by simp
  have qle: "quantum x \<le> quantum y"
    using ilog2_mono[OF x xy] x y by (simp add: quantum_def)
  show ?thesis
  proof (cases "quantum x = quantum y")
    case True
    have "x / 2 powi quantum y \<le> y / 2 powi quantum y"
      using xy pow2_pos[of "quantum y"] by (simp add: divide_right_mono)
    then have "round_half_even (x / 2 powi quantum y) \<le> round_half_even (y / 2 powi quantum y)"
      by (rule round_half_even_mono)
    then have "(of_int (round_half_even (x / 2 powi quantum y)) :: rat) * 2 powi quantum y
                 \<le> of_int (round_half_even (y / 2 powi quantum y)) * 2 powi quantum y"
      using pow2_pos[of "quantum y"] by (simp add: mult_right_mono)
    then show ?thesis using x y True by (simp add: round_double_def)
  next
    case False
    define e where "e = ilog2 y"
    have lt: "quantum x < quantum y" using False qle by simp
    have qy: "quantum y = e - 52" using lt y by (simp add: quantum_def e_def max_def split: if_splits)
    have ex: "ilog2 x + 1 \<le> e" using lt x qy by (simp add: quantum_def max_def split: if_splits)
    have qxe: "quantum x \<le> e" using lt qy by simp
    have "x < 2 powi (ilog2 x + 1)" using ilog2_bounds[OF x] by simp
    also have "(2::rat) powi (ilog2 x + 1) \<le> 2 powi e" using ex by (simp add: pow2_le_iff)
    finally have xe: "x < 2 powi e" .
    have ye: "2 powi e \<le> y" using ilog2_bounds[OF y] by (simp add: e_def)
    have "x / 2 powi quantum x \<le> 2 powi e / 2 powi quantum x"
      using xe pow2_pos[of "quantum x"] by (simp add: divide_right_mono)
    also have "(2::rat) powi e / 2 powi quantum x = of_int (2 ^ nat (e - quantum x))"
      using qxe unfolding pow2_diff by (subst of_int_pow2) simp_all
    finally have "round_half_even (x / 2 powi quantum x) \<le> 2 ^ nat (e - quantum x)"
      by (rule round_half_even_le)
    then have "(of_int (round_half_even (x / 2 powi quantum x)) :: rat) * 2 powi quantum x
                 \<le> of_int (2 ^ nat (e - quantum x)) * 2 powi quantum x"
      using pow2_pos[of "quantum x"] by (simp only: mult_le_cancel_right_pos of_int_le_iff)
    also have "(of_int (2 ^ nat (e - quantum x)) :: rat) * 2 powi quantum x = 2 powi e"
      using qxe by (subst of_int_pow2) (simp_all add: pow2_add)
    finally have low: "round_double x \<le> 2 powi e" using x by (simp add: round_double_def)
    have "(of_int (2 ^ 52) :: rat) = 2 powi e / 2 powi (e - 52)"
      unfolding of_int_pow2_52 pow2_diff by simp
    also have "\<dots> \<le> y / 2 powi quantum y"
      using ye pow2_pos[of "e - 52"] by (simp only: qy divide_right_mono less_imp_le)
    finally have "2 ^ 52 \<le> round_half_even (y / 2 powi quantum y)"
      by (rule round_half_even_ge)
    then have A: "(of_int (2 ^ 52) :: rat) * 2 powi quantum y
                 \<le> of_int (round_half_even (y / 2 powi quantum y)) * 2 powi quantum y"
      using pow2_pos[of "quantum y"] by (simp only: mult_le_cancel_right_pos of_int_le_iff)
    have B: "(of_int (2 ^ 52) :: rat) * 2 powi quantum y = 2 powi e"
      unfolding of_int_pow2_52 qy pow2_add by simp
    have "(2::rat) powi e \<le> of_int (round_half_even (y / 2 powi quantum y)) * 2 powi quantum y"
      using A unfolding B .
    then have "2 powi e \<le> round_double y" using y by (simp add: round_double_def)
    with low show ?thesis by simp
  qed
qed

lemma round_double_mono:
  assumes "0 \<le> x" and "x \<le> y"
  shows "round_double x \<le> round_double y"
proof (cases "x = 0")
  case True
  then show ?thesis using assms round_double_nonneg[of y] by (simp add: round_double_def)
next
  case False
  then show ?thesis using assms round_double_mono_pos[of x y] by simp
qed

lemma to_double_finite:
  assumes "\<bar>round_double x\<bar> < 2 powi 1024"
  shows "to_double x = Num (round_double x)"
proof (cases "round_double x = 0")
  case True
  then show ?thesis by (simp add: to_double_def)
next
  case False
  then have "ilog2 \<bar>round_double x\<bar> < 1024" using assms by (intro ilog2_less) simp_all
  then show ?thesis by (simp add: to_double_def Let_def)
qed

lemma is_double_round: "is_double x \<Longrightarrow> round_double x = x"
  by (auto simp: is_double_def to_double_def Let_def split: if_splits)

text \<open>The largest double below 1 is \<open>1 - 2\<^sup>-\<^sup>5\<^sup>3\<close>.\<close>

lemma pow2_m53: "(2::rat) powi (- 53) = 1 / 9007199254740992"
  by (simp add: power_int_def power_divide)

lemma double_below_one:
  assumes d: "is_double r" and r1: "r < 1"
  shows "r \<le> 1 - 2 powi (- 53)"
proof (cases "r < 1 / 2")
  case True
  then show ?thesis by (simp add: pow2_m53)
next
  case False
  then have half: "2 powi (- 1) \<le> r" by (simp add: power_int_def)
  have r0: "0 < r" using False by simp
  have "ilog2 r = - 1" using half r1 by (intro ilog2_unique) simp_all
  then have q: "quantum r = - 53" using r0 by (simp add: quantum_def)
  define k where "k = round_half_even (r / 2 powi (- 53))"
  have rk: "r = of_int k * 2 powi (- 53)"
    using is_double_round[OF d] r0 q by (simp add: round_double_def k_def)
  have "of_int k * (2::rat) powi (- 53) < 1" using r1 rk by simp
  then have "(of_int k :: rat) < of_int 9007199254740992" by (simp add: pow2_m53)
  then have "k < 9007199254740992" by (simp only: of_int_less_iff)
  then have "(of_int k :: rat) \<le> of_int 9007199254740991" by (simp only: of_int_le_iff)
  then have "of_int k * (2::rat) powi (- 53) \<le> of_int 9007199254740991 * 2 powi (- 53)"
    by (intro mult_right_mono) (simp_all add: pow2_m53)
  then show ?thesis unfolding rk[symmetric] by (simp add: pow2_m53)
qed

text \<open>Values of the arithmetic at the inputs used below.\<close>

lemma round_900000_top: "round_double ((1 - 2 powi (- 53)) * 900000) = 900000 - 2 powi (- 33)"
  by code_simp

lemma round_1000000_top: "round_double (100000 + (900000 - 2 powi (- 33))) = 1000000 - 2 powi (- 33)"
  by code_simp

lemma round_100000: "round_double 100000 = 100000"
  by code_simp

lemma double_values:
  "to_double 50 = Num 50"
  "to_double 75 = Num 75"
  "to_double 25 = Num 25"
  "to_double (1 / 5) = Num (3602879701896397 / 18014398509481984)"
  "to_double (101 / 10) = Num (5685794529555251 / 562949953421312)"
  "to_double (103 / 10) = Num (2899192260119757 / 281474976710656)"
  "to_double 100 = Num 100"
  "to_double (181945424945768051 / 18014398509481984) = Num (1421448632388813 / 140737488355328)"
  "to_double (185548304647664429 / 18014398509481984) = Num (5798384520239513 / 562949953421312)"
  "to_double (1 / 2) = Num (1 / 2)"
  by code_simp+

lemma is_double_half: "is_double (1 / 2)"
  by (simp add: is_double_def double_values)

lemma js_less_eq_not_less: "js_less_eq x y \<Longrightarrow> \<not> js_less y x"
  by (cases x; cases y) simp_all

lemma js_positive: "js_less (Num 0) x \<Longrightarrow> truthy x \<and> \<not> js_less_eq x (Num 0)"
  by (cases x) simp_all

text \<open>A difference or sum that is itself a double is computed exactly.\<close>

lemma js_sub_exact: "is_double (x - y) \<Longrightarrow> js_sub (Num x) (Num y) = Num (x - y)"
  by (simp add: js_sub_def is_double_def)

lemma js_add_exact: "is_double (x + y) \<Longrightarrow> js_add (Num x) (Num y) = Num (x + y)"
  by (simp add: is_double_def)

text \<open>
  A multiple of \<open>2\<^bsup>e\<^esup>\<close> below \<open>2\<^bsup>e + 53\<^esup>\<close> is a double; so are the integers up to
  a million and their predecessors on the grid of \<open>2\<^sup>-\<^sup>3\<^sup>3\<close>.
\<close>

lemma round_double_grid:
  assumes x: "0 < x" and b: "x < 2 powi (e + 53)" and g: "x = of_int m * 2 powi e"
    and e: "- 1074 \<le> e"
  shows "round_double x = x"
proof -
  have "ilog2 x < e + 53" using ilog2_less[OF x b] .
  then have q: "quantum x \<le> e" using x e by (simp add: quantum_def)
  define n where "n = nat (e - quantum x)"
  have p: "(2::rat) powi (e - quantum x) = of_int (2 ^ n)"
    unfolding n_def using of_int_pow2[of "e - quantum x"] q by simp
  have "x / 2 powi quantum x = of_int m * (2 powi e / 2 powi quantum x)"
    unfolding g by simp
  also have "\<dots> = of_int m * of_int (2 ^ n)"
    unfolding pow2_diff p ..
  also have "\<dots> = of_int (m * 2 ^ n)"
    by (simp only: of_int_mult)
  finally have d: "x / 2 powi quantum x = of_int (m * 2 ^ n)" .
  have "round_half_even (x / 2 powi quantum x) = m * 2 ^ n"
    unfolding d by (rule round_half_even_of_int)
  then have "round_double x = of_int (m * 2 ^ n) * 2 powi quantum x"
    using x by (simp only: round_double_def) simp
  also have "\<dots> = x / 2 powi quantum x * 2 powi quantum x"
    unfolding d ..
  also have "\<dots> = x" by simp
  finally show ?thesis .
qed

lemma pow2_20: "(2::rat) powi 20 = 1048576"
  by (simp add: power_int_def)

lemma pow2_m33: "(2::rat) powi (- 33) = 1 / 8589934592"
  by (simp add: power_int_def power_divide)

lemma round_double_int:
  assumes "0 \<le> n" and "n \<le> 1000000"
  shows "round_double (of_int n) = of_int n"
proof (cases "n = 0")
  case True
  then show ?thesis by (simp add: round_double_def)
next
  case False
  have "(of_int n :: rat) \<le> 1000000" using assms(2) by linarith
  then have b: "(of_int n :: rat) < 2 powi (- 33 + 53)" by (simp add: pow2_20)
  have g: "(of_int n :: rat) = of_int (n * 8589934592) * 2 powi (- 33)"
    by (simp add: pow2_m33)
  show ?thesis
    using False assms(1) by (intro round_double_grid[OF _ b g]) simp_all
qed

lemma round_double_below_int:
  assumes "1 \<le> n" and "n \<le> 1000000"
  shows "round_double (of_int n - 2 powi (- 33)) = of_int n - 2 powi (- 33)"
proof -
  have n: "(1::rat) \<le> of_int n" "(of_int n :: rat) \<le> 1000000" using assms by linarith+
  have x: "(0::rat) < of_int n - 2 powi (- 33)" using n by (simp add: pow2_m33)
  have b: "(of_int n :: rat) - 2 powi (- 33) < 2 powi (- 33 + 53)" using n by (simp add: pow2_20 pow2_m33)
  have g: "(of_int n :: rat) - 2 powi (- 33) = of_int (n * 8589934592 - 1) * 2 powi (- 33)"
    by (simp add: pow2_m33 field_simps)
  show ?thesis
    by (intro round_double_grid[OF x b g]) simp
qed

section \<open>Decimal numerals\<close>

lemma js_toString_nat:
  assumes "0 \<le> k" and "k < 10 ^ 21"
  shows "js_toString (Num (of_int k)) = Some (show_digits k)"
proof -
  have "(of_int k :: rat) < of_int (10 ^ 21)" using assms(2) by (simp only: of_int_less_iff)
  then have "\<bar>(of_int k :: rat)\<bar> < 10 ^ 21" using assms(1) by simp
  then show ?thesis using assms(1) by (simp add: js_toString_def)
qed

lemma show_digits_shape:
  "10 ^ n \<le> k \<Longrightarrow> k < 10 ^ Suc n \<Longrightarrow>
     length (show_digits k) = Suc n \<and> hd (show_digits k) = digit_char (k div 10 ^ n)"
proof (induction n arbitrary: k)
  case 0
  then show ?case by (simp add: show_digits.simps)
next
  case (Suc n)
  have "(10::int) * 1 \<le> 10 * 10 ^ n" by (intro mult_left_mono) simp_all
  then have k10: "\<not> k < 10" using Suc.prems(1) unfolding power_Suc by linarith
  have lo: "10 ^ n \<le> k div 10" using Suc.prems(1) by simp
  have hi: "k div 10 < 10 ^ Suc n" using Suc.prems(2) by simp
  have ih: "length (show_digits (k div 10)) = Suc n \<and> hd (show_digits (k div 10)) = digit_char (k div 10 div 10 ^ n)"
    using Suc.IH[OF lo hi] .
  have "show_digits k = show_digits (k div 10) @ [digit_char (k mod 10)]"
    using k10 by (subst show_digits.simps) simp
  moreover have "show_digits (k div 10) \<noteq> []" using ih by auto
  moreover have "k div 10 div 10 ^ n = k div 10 ^ Suc n" by (simp add: zdiv_zmult2_eq)
  ultimately show ?case using ih by simp
qed

lemma digit_char_nonzero:
  assumes "1 \<le> d" and "d \<le> 9"
  shows "digit_char d \<noteq> CHR ''0''"
proof -
  obtain n where n: "nat d = Suc n" "n < 9"
    using assms by (cases "nat d") auto
  have "''123456789'' ! n \<in> set ''123456789''" using n(2) by (intro nth_mem) simp
  then have "''123456789'' ! n \<noteq> CHR ''0''" by auto
  then show ?thesis by (simp add: digit_char_def n(1))
qed

lemma show_digits_six:
  assumes "100000 \<le> k" and "k \<le> 999999"
  shows "length (show_digits k) = 6 \<and> hd (show_digits k) \<noteq> CHR ''0''"
proof -
  have s: "length (show_digits k) = Suc 5 \<and> hd (show_digits k) = digit_char (k div 10 ^ 5)"
    using assms by (intro show_digits_shape) simp_all
  have "1 \<le> k div 10 ^ 5" "k div 10 ^ 5 \<le> 9" using assms by simp_all
  then show ?thesis using s digit_char_nonzero by simp
qed

lemma generateVerificationCode_range:
  assumes d: "is_double r" and r0: "0 \<le> r" and r1: "r < 1"
  shows "\<exists>k. generateVerificationCode (Num r) = Some (show_digits k) \<and> 100000 \<le> k \<and> k \<le> 999999"
proof -
  define p where "p = round_double (r * 900000)"
  define s where "s = round_double (100000 + p)"
  have top: "r * 900000 \<le> (1 - 2 powi (- 53)) * 900000"
    using double_below_one[OF d r1] by simp
  have p0: "0 \<le> p" using r0 by (simp add: p_def round_double_nonneg)
  have "0 \<le> r * 900000" using r0 by simp
  then have "round_double (r * 900000) \<le> round_double ((1 - 2 powi (- 53)) * 900000)"
    using top by (rule round_double_mono)
  then have p1: "p \<le> 900000 - 2 powi (- 33)"
    unfolding p_def round_900000_top .
  have "\<bar>p\<bar> < 2 powi 1024"
  proof -
    have "\<bar>p\<bar> < 2 powi 20" using p0 p1 by (simp add: power_int_def power_divide)
    also have "(2::rat) powi 20 \<le> 2 powi 1024" by (simp add: pow2_le_iff)
    finally show ?thesis .
  qed
  then have mul: "to_double (r * 900000) = Num p"
    by (simp add: p_def to_double_finite)
  have "round_double 100000 \<le> round_double (100000 + p)"
    using p0 by (intro round_double_mono) simp_all
  then have s0: "100000 \<le> s"
    unfolding s_def round_100000 .
  have "round_double (100000 + p) \<le> round_double (100000 + (900000 - 2 powi (- 33)))"
    using p0 p1 by (intro round_double_mono) simp_all
  then have s1: "s \<le> 1000000 - 2 powi (- 33)"
    unfolding s_def round_1000000_top .
  have "\<bar>s\<bar> < 2 powi 1024"
  proof -
    have "\<bar>s\<bar> < 2 powi 20" using s0 s1 by (simp add: power_int_def power_divide)
    also have "(2::rat) powi 20 \<le> 2 powi 1024" by (simp add: pow2_le_iff)
    finally show ?thesis .
  qed
  then have add: "to_double (100000 + p) = Num s"
    by (simp add: s_def to_double_finite)
  have k0: "100000 \<le> \<lfloor>s\<rfloor>" using s0 by (simp add: le_floor_iff)
  have "s < 1000000" using s1 by (simp add: power_int_def power_divide)
  then have "\<lfloor>s\<rfloor> < 1000000" by (simp add: floor_less_iff)
  then have k1: "\<lfloor>s\<rfloor> \<le> 999999" by simp
  have "Math_floor (js_add (Num 100000) (js_mul (Num r) (Num 900000))) = Num (of_int \<lfloor>s\<rfloor>)"
    by (simp add: mul add)
  moreover have "js_toString (Num (of_int \<lfloor>s\<rfloor>)) = Some (show_digits \<lfloor>s\<rfloor>)"
    using k0 k1 by (intro js_toString_nat) simp_all
  ultimately have "generateVerificationCode (Num r) = Some (show_digits \<lfloor>s\<rfloor>)"
    by (simp only: generateVerificationCode_def)
  then show ?thesis using k0 k1 by blast
qed

text \<open>
  The code as a function of the value \<open>r\<close> of \<open>Math.random()\<close>: both roundings are
  monotone and fix the grid points, so the code is \<open>100000 + \<lfloor>900000 r\<rfloor>\<close> unless
  \<open>900000 r\<close> is within \<open>2\<^sup>-\<^sup>3\<^sup>3\<close> below an integer, and every code of the range is the code
  of some double.
\<close>

lemma generateVerificationCode_value:
  assumes r0: "0 \<le> r" and r1: "r \<le> 1"
  shows "generateVerificationCode (Num r) =
           Some (show_digits \<lfloor>round_double (100000 + round_double (r * 900000))\<rfloor>)"
proof -
  define p where "p = round_double (r * 900000)"
  define s where "s = round_double (100000 + p)"
  have big: "(1048576::rat) \<le> 2 powi 1024"
    unfolding pow2_20[symmetric] by (simp add: pow2_le_iff)
  have p0: "0 \<le> p" using r0 by (simp add: p_def round_double_nonneg)
  have "round_double (r * 900000) \<le> round_double (of_int 900000)"
    using r0 r1 by (intro round_double_mono) simp_all
  then have p1: "p \<le> 900000"
    unfolding p_def using round_double_int[of 900000] by simp
  have "\<bar>p\<bar> < 2 powi 1024" using p0 p1 big by simp
  then have mul: "to_double (r * 900000) = Num p"
    by (simp add: p_def to_double_finite)
  have s0: "0 \<le> s" using p0 by (simp add: s_def round_double_nonneg)
  have "round_double (100000 + p) \<le> round_double (of_int 1000000)"
    using p0 p1 by (intro round_double_mono) simp_all
  then have s1: "s \<le> 1000000"
    unfolding s_def using round_double_int[of 1000000] by simp
  have "\<bar>s\<bar> < 2 powi 1024" using s0 s1 big by simp
  then have add: "to_double (100000 + p) = Num s"
    by (simp add: s_def to_double_finite)
  have k0: "0 \<le> \<lfloor>s\<rfloor>" using s0 by simp
  have "\<lfloor>s\<rfloor> \<le> 1000000" using s1 by (simp add: floor_le_iff)
  then have k1: "\<lfloor>s\<rfloor> < 10 ^ 21" by simp
  have "Math_floor (js_add (Num 100000) (js_mul (Num r) (Num 900000))) = Num (of_int \<lfloor>s\<rfloor>)"
    by (simp add: mul add)
  moreover have "js_toString (Num (of_int \<lfloor>s\<rfloor>)) = Some (show_digits \<lfloor>s\<rfloor>)"
    using k0 k1 by (rule js_toString_nat)
  ultimately show ?thesis
    unfolding s_def p_def by (simp only: generateVerificationCode_def)
qed

lemma code_lower:
  assumes "0 \<le> j" and "j \<le> 900000" and "of_int j \<le> x"
  shows "of_int (100000 + j) \<le> round_double (100000 + round_double x)"
proof -
  have "round_double (of_int j) \<le> round_double x"
    using assms by (intro round_double_mono) simp_all
  then have p: "of_int j \<le> round_double x"
    using round_double_int[of j] assms by simp
  have "round_double (of_int (100000 + j)) \<le> round_double (100000 + round_double x)"
    using assms(1) p by (intro round_double_mono) simp_all
  then show ?thesis
    using round_double_int[of "100000 + j"] assms by simp
qed

lemma code_upper:
  assumes "0 \<le> x" and "1 \<le> n" and "n \<le> 900000" and "x \<le> of_int n - 2 powi (- 33)"
  shows "round_double (100000 + round_double x) \<le> of_int (100000 + n) - 2 powi (- 33)"
proof -
  have "round_double x \<le> round_double (of_int n - 2 powi (- 33))"
    using assms by (intro round_double_mono) simp_all
  then have p: "round_double x \<le> of_int n - 2 powi (- 33)"
    using round_double_below_int[of n] assms by simp
  have p0: "0 \<le> round_double x" using assms(1) by (rule round_double_nonneg)
  have "round_double (100000 + round_double x) \<le> round_double (of_int (100000 + n) - 2 powi (- 33))"
    using p0 p by (intro round_double_mono) simp_all
  then show ?thesis
    using round_double_below_int[of "100000 + n"] assms by simp
qed

lemma code_upper_int:
  assumes "0 \<le> x" and "0 \<le> n" and "n \<le> 900000" and "x \<le> of_int n"
  shows "round_double (100000 + round_double x) \<le> of_int (100000 + n)"
proof -
  have "round_double x \<le> round_double (of_int n)"
    using assms by (intro round_double_mono) simp_all
  then have p: "round_double x \<le> of_int n"
    using round_double_int[of n] assms by simp
  have p0: "0 \<le> round_double x" using assms(1) by (rule round_double_nonneg)
  have "round_double (100000 + round_double x) \<le> round_double (of_int (100000 + n))"
    using p0 p by (intro round_double_mono) simp_all
  then show ?thesis
    using round_double_int[of "100000 + n"] assms by simp
qed

lemma generateVerificationCode_bucket:
  assumes j0: "0 \<le> j" and j1: "j < 900000"
    and lo: "of_int j \<le> r * 900000" and hi: "r * 900000 \<le> of_int j + 1 - 2 powi (- 33)"
  shows "generateVerificationCode (Num r) = Some (show_digits (100000 + j))"
proof -
  define s where "s = round_double (100000 + round_double (r * 900000))"
  have x0: "0 \<le> r * 900000" using j0 lo by (meson of_int_0_le_iff order_trans)
  then have r0: "0 \<le> r" by (simp add: zero_le_mult_iff)
  have "r * 900000 < of_int j + 1" using hi by (simp add: pow2_m33)
  also have "\<dots> \<le> 900000" using j1 by linarith
  finally have r1: "r \<le> 1" by simp
  have a: "of_int (100000 + j) \<le> s"
    unfolding s_def using j0 j1 lo by (intro code_lower) simp_all
  have "s \<le> of_int (100000 + (j + 1)) - 2 powi (- 33)"
    unfolding s_def using x0 j0 j1 hi by (intro code_upper) simp_all
  then have b: "s < of_int (100000 + j) + 1" by (simp add: pow2_m33)
  have "\<lfloor>s\<rfloor> = 100000 + j" using a b by (rule floor_unique)
  then show ?thesis
    using generateVerificationCode_value[OF r0 r1] by (simp add: s_def)
qed

lemma generateVerificationCode_floor:
  assumes r0: "0 \<le> r" and r1: "r < 1"
  shows "generateVerificationCode (Num r) = Some (show_digits (100000 + \<lfloor>r * 900000\<rfloor>)) \<or>
         of_int \<lfloor>r * 900000\<rfloor> + 1 - 2 powi (- 33) < r * 900000 \<and>
         generateVerificationCode (Num r) = Some (show_digits (100000 + \<lfloor>r * 900000\<rfloor> + 1))"
proof (cases "r * 900000 \<le> of_int \<lfloor>r * 900000\<rfloor> + 1 - 2 powi (- 33)")
  case True
  have "0 \<le> \<lfloor>r * 900000\<rfloor>" using r0 by simp
  moreover have "\<lfloor>r * 900000\<rfloor> < 900000" using r1 by (simp add: floor_less_iff)
  ultimately show ?thesis
    using True by (intro disjI1 generateVerificationCode_bucket) simp_all
next
  case False
  define j where "j = \<lfloor>r * 900000\<rfloor>"
  define s where "s = round_double (100000 + round_double (r * 900000))"
  have j0: "0 \<le> j" using r0 by (simp add: j_def)
  have j1: "j < 900000" using r1 by (simp add: j_def floor_less_iff)
  have x0: "0 \<le> r * 900000" using r0 by simp
  have lo: "of_int j + 1 - 2 powi (- 33) \<le> r * 900000" using False by (simp add: j_def)
  have hi: "r * 900000 \<le> of_int (j + 1)" unfolding j_def by linarith
  have "of_int (100000 + j) \<le> s"
    unfolding s_def using j0 j1 by (intro code_lower) (simp_all add: j_def)
  moreover have "s \<le> of_int (100000 + (j + 1))"
    unfolding s_def using x0 j0 j1 hi by (intro code_upper_int) simp_all
  ultimately have "\<lfloor>s\<rfloor> = 100000 + j \<or> \<lfloor>s\<rfloor> = 100000 + j + 1"
    using floor_mono[of "of_int (100000 + j)" s] floor_mono[of s "of_int (100000 + (j + 1))"]
    unfolding floor_of_int by linarith
  then show ?thesis
    using generateVerificationCode_value[OF r0] r1 False
    by (auto simp: s_def j_def)
qed

lemma generateVerificationCode_onto:
  assumes k0: "100000 \<le> k" and k1: "k \<le> 999999"
  shows "\<exists>r. is_double r \<and> 0 \<le> r \<and> r < 1 \<and> generateVerificationCode (Num r) = Some (show_digits k)"
proof -
  define j where "j = k - 100000"
  define m where "m = \<lceil>of_int j * 9007199254740992 / (900000::rat)\<rceil>"
  define r where "r = (of_int m :: rat) * 2 powi (- 53)"
  have j0: "0 \<le> j" and j1: "j \<le> 899999" using k0 k1 by (simp_all add: j_def)
  have jr: "(0::rat) \<le> of_int j" "(of_int j :: rat) \<le> 899999" using j0 j1 by linarith+
  have m_ge: "of_int j * 9007199254740992 / (900000::rat) \<le> of_int m"
    unfolding m_def by (rule le_of_int_ceiling)
  have m_lt: "(of_int m :: rat) < of_int j * 9007199254740992 / 900000 + 1"
    unfolding m_def
    using ceiling_correct[of "of_int j * 9007199254740992 / (900000::rat)"] by linarith
  have m0: "0 \<le> m"
  proof -
    have "(0::rat) \<le> of_int j * 9007199254740992 / 900000" using jr by simp
    then have "(0::rat) \<le> of_int m" using m_ge by linarith
    then show ?thesis by simp
  qed
  have mr: "(of_int m :: rat) < 9007199254740992"
    using m_lt jr by (simp add: field_simps)
  have r0: "0 \<le> r" using m0 by (simp add: r_def)
  have r1: "r < 1" using mr by (simp add: r_def pow2_m53)
  have d: "is_double r"
  proof (cases "m = 0")
    case True
    then show ?thesis by (simp add: r_def is_double_def to_double_def round_double_def)
  next
    case False
    then have x: "0 < r" using m0 by (simp add: r_def)
    have b: "r < 2 powi (- 53 + 53)" using r1 by simp
    have "round_double r = r"
      by (intro round_double_grid[OF x b]) (simp_all add: r_def)
    moreover have "\<bar>r\<bar> < 2 powi 1024"
    proof -
      have "\<bar>r\<bar> < 2 powi 0" using r0 r1 by simp
      also have "(2::rat) powi 0 \<le> 2 powi 1024" unfolding pow2_le_iff by simp
      finally show ?thesis .
    qed
    ultimately show ?thesis
      using to_double_finite[of r] by (simp add: is_double_def)
  qed
  have lo: "of_int j \<le> r * 900000"
    using m_ge by (simp add: r_def pow2_m53 field_simps)
  have hi: "r * 900000 \<le> of_int j + 1 - 2 powi (- 33)"
    using m_lt by (simp add: r_def pow2_m53 pow2_m33 field_simps)
  have "generateVerificationCode (Num r) = Some (show_digits (100000 + j))"
    using j0 j1 lo hi by (intro generateVerificationCode_bucket) simp_all
  then show ?thesis using d r0 r1 by (auto simp: j_def)
qed


lemma show_digits_values:
  "show_digits 550000 = ''550000''"
  "show_digits 123456 = ''123456''"
  by code_simp+

section \<open>The delivery pipeline leaves the other stores alone\<close>

lemma stores_env [simp]:
  "stores (setTimeout d s) = stores s"
  "stores (snd (sgMail_send s)) = stores s"
  "stores (snd (Date_now s)) = stores s"
  "stores (snd (next_suffix s)) = stores s"
  "stores (s\<lparr>emailLogs := x\<rparr>) = stores s"
  "stores (s\<lparr>failedEmails := y\<rparr>) = stores s"
  by (simp_all add: stores_def setTimeout_def sgMail_send_def Date_now_def next_suffix_def)

lemma attempt_loop_stores:
  "stores (snd (attempt_loop m mx i a l s)) = stores s"
proof (induction "Suc mx - a" arbitrary: a l s)
  case 0
  then show ?case by (subst attempt_loop.simps) simp
next
  case (Suc n)
  then have "n = Suc mx - Suc a" by simp
  note ih = Suc.hyps(1)[OF this]
  show ?case
    by (subst attempt_loop.simps)
       (simp add: ih Let_def split: option.splits)
qed

lemma sendEmailWithRetry_stores:
  "stores (snd (sendEmailWithRetry m ty mx s)) = stores s"
  by (simp add: sendEmailWithRetry_def attempt_loop_stores split_def Let_def)

lemma storesD:
  "stores s = stores t \<Longrightarrow>
     users s = users t \<and> heap s = heap t \<and> allocated s = allocated t \<and>
     transactions s = transactions t \<and> verificationCodes s = verificationCodes t \<and>
     rateLimits s = rateLimits t"
  by (simp add: stores_def)

lemma sendTransactionReceipt_stores:
  "stores (snd (sendTransactionReceipt mail tx ty s)) = stores s"
  using sendEmailWithRetry_stores[of "\<lparr>to = mail, content = ReceiptMail tx ty\<rparr>" "''receipt''" 3 s]
  by (cases "sendEmailWithRetry \<lparr>to = mail, content = ReceiptMail tx ty\<rparr> ''receipt'' 3 s")
     (auto simp: sendTransactionReceipt_def split: sum.splits option.splits)

lemma send_receipts_stores:
  "stores (send_receipts a b f tx s) = stores s"
proof (cases "sendTransactionReceipt a tx ''sent'' s")
  case (Pair r s1)
  have 1: "stores s1 = stores s" using sendTransactionReceipt_stores[of a tx "''sent''" s] Pair by simp
  show ?thesis
    using Pair 1 sendTransactionReceipt_stores[of b tx "''received''" s1]
    by (cases r) (simp_all add: send_receipts_def)
qed

lemma send_receipts_frame [simp]:
  "users (send_receipts a b f tx s) = users s"
  "heap (send_receipts a b f tx s) = heap s"
  "transactions (send_receipts a b f tx s) = transactions s"
  using storesD[OF send_receipts_stores[of a b f tx s]] by simp_all

section \<open>Runs of the retry loop\<close>

text \<open>One iteration of the loop, for each of its three exits.\<close>

lemma attempt_loop_retry:
  assumes "a < mx" and "mailer s 0 \<noteq> None"
  shows "attempt_loop m mx i a l s =
           attempt_loop m mx i (Suc a)
             (l\<lparr>log_attempts := a, errors := errors l @ [(a, errorMsg_of (mailer s 0), clock s 0)]\<rparr>)
             (s\<lparr>slept := (if 1 < a then slept s @ [backoff_delay a] else slept s),
                mailer := (\<lambda>n. mailer s (Suc n)), clock := (\<lambda>n. clock s (Suc n))\<rparr>)"
  using assms
  by (subst attempt_loop.simps)
     (auto simp: Let_def sgMail_send_def Date_now_def setTimeout_def errorMsg_of_def)

lemma attempt_loop_give_up:
  assumes "0 < mx" and "mailer s 0 \<noteq> None"
  shows "attempt_loop m mx i mx l s =
           (Inl (DeliveryFailed mx (errorMsg_of (mailer s 0))),
            s\<lparr>slept := (if 1 < mx then slept s @ [backoff_delay mx] else slept s),
               mailer := (\<lambda>n. mailer s (Suc n)), clock := (\<lambda>n. clock s (Suc (Suc n))),
               emailLogs := emailLogs s @
                 [l\<lparr>log_attempts := mx,
                    errors := errors l @ [(mx, errorMsg_of (mailer s 0), clock s 0)],
                    success := False, failedAt := Some (clock s (Suc 0))\<rparr>],
               failedEmails := AList.update i
                 (log_entry.extend
                    (l\<lparr>log_attempts := mx,
                       errors := errors l @ [(mx, errorMsg_of (mailer s 0), clock s 0)],
                       success := False, failedAt := Some (clock s (Suc 0))\<rparr>)
                    (failed_email.fields m))
                 (failedEmails s)\<rparr>)"
  using assms
  by (subst attempt_loop.simps)
     (auto simp: Let_def sgMail_send_def Date_now_def setTimeout_def errorMsg_of_def)

lemma attempt_loop_delivered:
  assumes "a \<le> mx" and "mailer s 0 = None"
  shows "attempt_loop m mx i a l s =
           (Inr (Some (i, a)),
            s\<lparr>slept := (if 1 < a then slept s @ [backoff_delay a] else slept s),
               mailer := (\<lambda>n. mailer s (Suc n)), clock := (\<lambda>n. clock s (Suc n)),
               emailLogs := emailLogs s @
                 [l\<lparr>log_attempts := a, success := True, completedAt := Some (clock s 0)\<rparr>],
               failedEmails := AList.delete i (failedEmails s)\<rparr>)"
  using assms
  by (subst attempt_loop.simps)
     (simp add: Let_def sgMail_send_def Date_now_def setTimeout_def)

lemma sendEmailWithRetry_start:
  "sendEmailWithRetry m ty mx s =
     attempt_loop m mx (clock s 0, suffixes s 0) (Suc 0)
       \<lparr>log_id = (clock s 0, suffixes s 0), log_to = to m, log_type = ty,
          log_timestamp = clock s (Suc 0), log_attempts = 0, success = False, errors = [],
          completedAt = None, failedAt = None\<rparr>
       (s\<lparr>suffixes := (\<lambda>n. suffixes s (Suc n)), clock := (\<lambda>n. clock s (Suc (Suc n)))\<rparr>)"
  by (simp add: sendEmailWithRetry_def split_def Let_def Date_now_def next_suffix_def)



lemma attempt_loop_three_failures:
  assumes "mailer s 0 \<noteq> None" and "mailer s (Suc 0) \<noteq> None" and "mailer s (Suc (Suc 0)) \<noteq> None"
  shows "fst (attempt_loop m 3 i (Suc 0) l s) = Inl (DeliveryFailed 3 (errorMsg_of (mailer s (Suc (Suc 0)))))"
    and "emailLogs (snd (attempt_loop m 3 i (Suc 0) l s)) \<noteq> []"
    and "\<not> success (last (emailLogs (snd (attempt_loop m 3 i (Suc 0) l s))))"
    and "map_of (failedEmails (snd (attempt_loop m 3 i (Suc 0) l s))) i \<noteq> None"
    and "slept (snd (attempt_loop m 3 i (Suc 0) l s)) = slept s @ [2000, 4000]"
proof -
  define l1 where "l1 = l\<lparr>log_attempts := 1, errors := errors l @ [(1, errorMsg_of (mailer s 0), clock s 0)]\<rparr>"
  define s1 where "s1 = s\<lparr>slept := (if 1 < (1::nat) then slept s @ [backoff_delay 1] else slept s),
                mailer := (\<lambda>n. mailer s (Suc n)), clock := (\<lambda>n. clock s (Suc n))\<rparr>"
  have a: "attempt_loop m 3 i 1 l s = attempt_loop m 3 i (Suc 1) l1 s1"
    unfolding l1_def s1_def using assms(1) by (intro attempt_loop_retry) simp_all
  have m1: "mailer s1 0 \<noteq> None" "mailer s1 (Suc 0) \<noteq> None" using assms by (simp_all add: s1_def)
  define l2 where "l2 = l1\<lparr>log_attempts := Suc 1, errors := errors l1 @ [(Suc 1, errorMsg_of (mailer s1 0), clock s1 0)]\<rparr>"
  define s2 where "s2 = s1\<lparr>slept := (if 1 < Suc 1 then slept s1 @ [backoff_delay (Suc 1)] else slept s1),
                mailer := (\<lambda>n. mailer s1 (Suc n)), clock := (\<lambda>n. clock s1 (Suc n))\<rparr>"
  have b: "attempt_loop m 3 i (Suc 1) l1 s1 = attempt_loop m 3 i (Suc (Suc 1)) l2 s2"
    unfolding l2_def s2_def using m1(1) by (intro attempt_loop_retry) simp_all
  have m2: "mailer s2 0 \<noteq> None" using m1 by (simp add: s2_def)
  have e: "mailer s2 0 = mailer s (Suc (Suc 0))" by (simp add: s2_def s1_def)
  have sl: "slept s2 = slept s @ [2000]" by (simp add: s2_def s1_def backoff_delay_def)
  have c: "attempt_loop m 3 i (Suc 0) l s = attempt_loop m 3 i 3 l2 s2"
    using a b by (simp add: eval_nat_numeral)
  note g = attempt_loop_give_up[of 3 s2 m i l2, OF _ m2]
  show "fst (attempt_loop m 3 i (Suc 0) l s) = Inl (DeliveryFailed 3 (errorMsg_of (mailer s (Suc (Suc 0)))))"
    unfolding c by (subst g) (simp_all add: e)
  show "emailLogs (snd (attempt_loop m 3 i (Suc 0) l s)) \<noteq> []"
    unfolding c by (subst g) simp_all
  show "\<not> success (last (emailLogs (snd (attempt_loop m 3 i (Suc 0) l s))))"
    unfolding c by (subst g) simp_all
  show "map_of (failedEmails (snd (attempt_loop m 3 i (Suc 0) l s))) i \<noteq> None"
    unfolding c by (subst g) (simp_all add: update_conv')
  show "slept (snd (attempt_loop m 3 i (Suc 0) l s)) = slept s @ [2000, 4000]"
    unfolding c by (subst g) (simp_all add: sl backoff_delay_def)
qed

lemma sendEmailWithRetry_three_failures:
  assumes "mailer s 0 \<noteq> None" and "mailer s (Suc 0) \<noteq> None" and "mailer s (Suc (Suc 0)) \<noteq> None"
  shows "fst (sendEmailWithRetry m ty 3 s) = Inl (DeliveryFailed 3 (errorMsg_of (mailer s (Suc (Suc 0)))))"
    and "emailLogs (snd (sendEmailWithRetry m ty 3 s)) \<noteq> []"
    and "\<not> success (last (emailLogs (snd (sendEmailWithRetry m ty 3 s))))"
    and "map_of (failedEmails (snd (sendEmailWithRetry m ty 3 s))) (clock s 0, suffixes s 0) \<noteq> None"
    and "slept (snd (sendEmailWithRetry m ty 3 s)) = slept s @ [2000, 4000]"
proof -
  define t where "t = s\<lparr>suffixes := (\<lambda>n. suffixes s (Suc n)), clock := (\<lambda>n. clock s (Suc (Suc n)))\<rparr>"
  have m: "mailer t 0 \<noteq> None" "mailer t (Suc 0) \<noteq> None" "mailer t (Suc (Suc 0)) \<noteq> None"
    using assms by (simp_all add: t_def)
  have e: "mailer t = mailer s" "slept t = slept s" by (simp_all add: t_def)
  note f = attempt_loop_three_failures[OF m, unfolded e]
  show "fst (sendEmailWithRetry m ty 3 s) = Inl (DeliveryFailed 3 (errorMsg_of (mailer s (Suc (Suc 0)))))"
    unfolding sendEmailWithRetry_start t_def[symmetric] by (rule f)
  show "emailLogs (snd (sendEmailWithRetry m ty 3 s)) \<noteq> []"
    unfolding sendEmailWithRetry_start t_def[symmetric] by (rule f)
  show "\<not> success (last (emailLogs (snd (sendEmailWithRetry m ty 3 s))))"
    unfolding sendEmailWithRetry_start t_def[symmetric] by (rule f)
  show "map_of (failedEmails (snd (sendEmailWithRetry m ty 3 s))) (clock s 0, suffixes s 0) \<noteq> None"
    unfolding sendEmailWithRetry_start t_def[symmetric] by (rule f)
  show "slept (snd (sendEmailWithRetry m ty 3 s)) = slept s @ [2000, 4000]"
    unfolding sendEmailWithRetry_start t_def[symmetric] by (rule f)
qed

lemma sendEmailWithRetry_delivered_first:
  assumes "mailer s 0 = None"
  shows "fst (sendEmailWithRetry m ty 3 s) = Inr (Some ((clock s 0, suffixes s 0), 1))"
    and "mailer (snd (sendEmailWithRetry m ty 3 s)) = (\<lambda>n. mailer s (Suc n))"
  using assms
  by (simp_all add: sendEmailWithRetry_start attempt_loop_delivered)

lemma sendTransactionReceipt_failure:
  assumes "mailer s 0 \<noteq> None" and "mailer s (Suc 0) \<noteq> None" and "mailer s (Suc (Suc 0)) \<noteq> None"
  shows "fst (sendTransactionReceipt mail tx ty s) = Inl (DeliveryFailed 3 (errorMsg_of (mailer s (Suc (Suc 0)))))"
    and "emailLogs (snd (sendTransactionReceipt mail tx ty s)) \<noteq> []"
    and "\<not> success (last (emailLogs (snd (sendTransactionReceipt mail tx ty s))))"
    and "failedEmails (snd (sendTransactionReceipt mail tx ty s)) \<noteq> []"
  using sendEmailWithRetry_three_failures[OF assms, of "\<lparr>to = mail, content = ReceiptMail tx ty\<rparr>" "''receipt''"]
  by (cases "sendEmailWithRetry \<lparr>to = mail, content = ReceiptMail tx ty\<rparr> ''receipt'' 3 s";
      auto simp: sendTransactionReceipt_def)+

lemma sendTransactionReceipt_delivered:
  assumes "mailer s 0 = None"
  shows "\<exists>i. fst (sendTransactionReceipt mail tx ty s) = Inr i"
    and "mailer (snd (sendTransactionReceipt mail tx ty s)) = (\<lambda>n. mailer s (Suc n))"
  using sendEmailWithRetry_delivered_first[OF assms, of "\<lparr>to = mail, content = ReceiptMail tx ty\<rparr>" "''receipt''"]
  by (cases "sendEmailWithRetry \<lparr>to = mail, content = ReceiptMail tx ty\<rparr> ''receipt'' 3 s";
      auto simp: sendTransactionReceipt_def)+

text \<open>A delivery that fails \<open>k < 3\<close> times and then succeeds has used \<open>k + 1\<close> sends.\<close>

lemma attempt_loop_delivered_after:
  "a + k \<le> mx \<Longrightarrow> (\<forall>j<k. mailer s j \<noteq> None) \<Longrightarrow> mailer s k = None \<Longrightarrow>
     fst (attempt_loop m mx i a l s) = Inr (Some (i, a + k)) \<and>
     mailer (snd (attempt_loop m mx i a l s)) = (\<lambda>n. mailer s (Suc k + n))"
proof (induction k arbitrary: a l s)
  case 0
  then show ?case by (simp add: attempt_loop_delivered)
next
  case (Suc k)
  have a: "a < mx" using Suc.prems(1) by simp
  have m0: "mailer s 0 \<noteq> None" using Suc.prems(2) by simp
  define l' where "l' = l\<lparr>log_attempts := a, errors := errors l @ [(a, errorMsg_of (mailer s 0), clock s 0)]\<rparr>"
  define s' where "s' = s\<lparr>slept := (if 1 < a then slept s @ [backoff_delay a] else slept s),
                mailer := (\<lambda>n. mailer s (Suc n)), clock := (\<lambda>n. clock s (Suc n))\<rparr>"
  have step: "attempt_loop m mx i a l s = attempt_loop m mx i (Suc a) l' s'"
    unfolding l'_def s'_def using a m0 by (rule attempt_loop_retry)
  have p: "Suc a + k \<le> mx" "\<forall>j<k. mailer s' j \<noteq> None" "mailer s' k = None"
    using Suc.prems by (simp_all add: s'_def)
  show ?case
    unfolding step using Suc.IH[OF p, of l'] by (simp add: s'_def)
qed

lemma sendEmailWithRetry_delivered_after:
  assumes "k < 3" and "\<forall>j<k. mailer s j \<noteq> None" and "mailer s k = None"
  shows "fst (sendEmailWithRetry m ty 3 s) = Inr (Some ((clock s 0, suffixes s 0), Suc k))"
    and "mailer (snd (sendEmailWithRetry m ty 3 s)) = (\<lambda>n. mailer s (Suc k + n))"
proof -
  define t where "t = s\<lparr>suffixes := (\<lambda>n. suffixes s (Suc n)), clock := (\<lambda>n. clock s (Suc (Suc n)))\<rparr>"
  have p: "Suc 0 + k \<le> 3" "\<forall>j<k. mailer t j \<noteq> None" "mailer t k = None"
    using assms by (simp_all add: t_def)
  note f = attempt_loop_delivered_after[OF p]
  show "fst (sendEmailWithRetry m ty 3 s) = Inr (Some ((clock s 0, suffixes s 0), Suc k))"
    unfolding sendEmailWithRetry_start t_def[symmetric] using f by simp
  show "mailer (snd (sendEmailWithRetry m ty 3 s)) = (\<lambda>n. mailer s (Suc k + n))"
    unfolding sendEmailWithRetry_start t_def[symmetric] using f by (simp add: t_def)
qed

lemma sendTransactionReceipt_delivered_after:
  assumes "k < 3" and "\<forall>j<k. mailer s j \<noteq> None" and "mailer s k = None"
  shows "\<exists>i. fst (sendTransactionReceipt mail tx ty s) = Inr i"
    and "mailer (snd (sendTransactionReceipt mail tx ty s)) = (\<lambda>n. mailer s (Suc k + n))"
  using sendEmailWithRetry_delivered_after[OF assms, of "\<lparr>to = mail, content = ReceiptMail tx ty\<rparr>" "''receipt''"]
  by (cases "sendEmailWithRetry \<lparr>to = mail, content = ReceiptMail tx ty\<rparr> ''receipt'' 3 s";
      auto simp: sendTransactionReceipt_def)+

lemma send_receipts_failure:
  assumes "(mailer s 0 \<noteq> None \<and> mailer s 1 \<noteq> None \<and> mailer s 2 \<noteq> None) \<or>
           (f \<and> mailer s 0 = None \<and> mailer s 1 \<noteq> None \<and> mailer s 2 \<noteq> None \<and> mailer s 3 \<noteq> None)"
  shows "emailLogs (send_receipts a b f tx s) \<noteq> [] \<and>
         \<not> success (last (emailLogs (send_receipts a b f tx s))) \<and>
         failedEmails (send_receipts a b f tx s) \<noteq> []"
  using assms
proof
  assume h: "mailer s 0 \<noteq> None \<and> mailer s 1 \<noteq> None \<and> mailer s 2 \<noteq> None"
  then have h': "mailer s 0 \<noteq> None" "mailer s (Suc 0) \<noteq> None" "mailer s (Suc (Suc 0)) \<noteq> None"
    by (simp_all add: eval_nat_numeral)
  show ?thesis
    using sendTransactionReceipt_failure[OF h', of a tx "''sent''"]
    by (cases "sendTransactionReceipt a tx ''sent'' s") (simp add: send_receipts_def)
next
  assume h: "f \<and> mailer s 0 = None \<and> mailer s 1 \<noteq> None \<and> mailer s 2 \<noteq> None \<and> mailer s 3 \<noteq> None"
  obtain r s1 where p: "sendTransactionReceipt a tx ''sent'' s = (r, s1)"
    by (cases "sendTransactionReceipt a tx ''sent'' s")
  have m: "mailer s1 = (\<lambda>n. mailer s (Suc n))" and r: "\<exists>i. r = Inr i"
    using sendTransactionReceipt_delivered[of s a tx "''sent''"] h p by simp_all
  have h': "mailer s1 0 \<noteq> None" "mailer s1 (Suc 0) \<noteq> None" "mailer s1 (Suc (Suc 0)) \<noteq> None"
    using h by (simp_all add: m eval_nat_numeral)
  show ?thesis
    using sendTransactionReceipt_failure[OF h', of b tx "''received''"] p r h
    by (auto simp: send_receipts_def)
qed

lemma send_receipts_fail:
  assumes "(mailer s 0 \<noteq> None \<and> mailer s 1 \<noteq> None \<and> mailer s 2 \<noteq> None) \<or>
           (f \<and> (\<exists>k<3. (\<forall>j<k. mailer s j \<noteq> None) \<and> mailer s k = None \<and>
                  mailer s (k + 1) \<noteq> None \<and> mailer s (k + 2) \<noteq> None \<and> mailer s (k + 3) \<noteq> None))"
  shows "emailLogs (send_receipts a b f tx s) \<noteq> [] \<and>
         \<not> success (last (emailLogs (send_receipts a b f tx s))) \<and>
         failedEmails (send_receipts a b f tx s) \<noteq> []"
proof (cases "mailer s 0 \<noteq> None \<and> mailer s 1 \<noteq> None \<and> mailer s 2 \<noteq> None")
  case True
  then show ?thesis by (intro send_receipts_failure) simp
next
  case False
  then obtain k where k: "k < 3" "\<forall>j<k. mailer s j \<noteq> None" "mailer s k = None"
      "mailer s (k + 1) \<noteq> None" "mailer s (k + 2) \<noteq> None" "mailer s (k + 3) \<noteq> None" and f: f
    using assms by blast
  obtain r s1 where p: "sendTransactionReceipt a tx ''sent'' s = (r, s1)"
    by (cases "sendTransactionReceipt a tx ''sent'' s")
  have m: "mailer s1 = (\<lambda>n. mailer s (Suc k + n))" and r: "\<exists>i. r = Inr i"
    using sendTransactionReceipt_delivered_after[OF k(1-3), of a tx "''sent''"] p by simp_all
  have h': "mailer s1 0 \<noteq> None" "mailer s1 (Suc 0) \<noteq> None" "mailer s1 (Suc (Suc 0)) \<noteq> None"
    using k(4-6) by (simp_all add: m eval_nat_numeral)
  show ?thesis
    using sendTransactionReceipt_failure[OF h', of b tx "''received''"] p r f
    by (auto simp: send_receipts_def)
qed

text \<open>
  A retry that delivers returns the id of the new delivery and leaves the entry it was
  asked to retry in \<open>failedEmails\<close>, whenever the new id differs from the old one.
\<close>

lemma retryFailedEmail_keeps_entry:
  assumes "map_of (failedEmails s) i = Some f" and "mailer s 0 = None"
    and "(clock s 0, suffixes s 0) \<noteq> i"
  shows "fst (retryFailedEmail i s) = Inr (Some ((clock s 0, suffixes s 0), 1))"
    and "map_of (failedEmails (snd (retryFailedEmail i s))) i = Some f"
  using assms
  by (simp_all add: retryFailedEmail_def sendEmailWithRetry_start attempt_loop_delivered
        delete_conv')

section \<open>Issuing verification codes\<close>

lemma checkRateLimit_result:
  "checkRateLimit mail ty s =
     (let recent = filter (\<lambda>t. clock s 0 - 3600000 < t)
                     (case rateLimits s (mail @ '':'' @ ty) of None \<Rightarrow> [] | Some a \<Rightarrow> a);
          s1 = s\<lparr>clock := (\<lambda>n. clock s (Suc n))\<rparr>
      in if 3 \<le> length recent
         then (Inl RateLimitExceeded, s1\<lparr>rateLimits := (rateLimits s)(mail @ '':'' @ ty \<mapsto> recent)\<rparr>)
         else (Inr (), s1\<lparr>rateLimits := (rateLimits s)(mail @ '':'' @ ty \<mapsto> recent @ [clock s 0])\<rparr>))"
  by (auto simp: checkRateLimit_def Date_now_def Let_def split: option.splits)





lemma sendVerificationCode_delivery_failure:
  assumes limit: "length (filter (\<lambda>t. clock s 0 - 3600000 < t)
                     (case rateLimits s (mail @ '':verification'') of None \<Rightarrow> [] | Some a \<Rightarrow> a)) < 3"
    and code: "generateVerificationCode (Num (random s 0)) = Some c"
    and fail: "mailer s 0 \<noteq> None" "mailer s (Suc 0) \<noteq> None" "mailer s (Suc (Suc 0)) \<noteq> None"
  shows "fst (sendVerificationCode mail nm s) = Inl (DeliveryFailed 3 (errorMsg_of (mailer s (Suc (Suc 0)))))"
    and "users (snd (sendVerificationCode mail nm s)) = users s"
    and "heap (snd (sendVerificationCode mail nm s)) = heap s"
    and "rateLimits (snd (sendVerificationCode mail nm s)) (mail @ '':verification'') =
           Some (filter (\<lambda>t. clock s 0 - 3600000 < t)
                   (case rateLimits s (mail @ '':verification'') of None \<Rightarrow> [] | Some a \<Rightarrow> a) @ [clock s 0])"
    and "verificationCodes (snd (sendVerificationCode mail nm s)) mail =
           Some \<lparr>code = c, expiresAt = clock s (Suc 0) + 600000, attempts = 0\<rparr>"
    and "i = (clock s (Suc (Suc 0)), suffixes s 0) \<Longrightarrow>
           map_of (failedEmails (snd (sendVerificationCode mail nm s))) i \<noteq> None"
proof -
  define recent where "recent = filter (\<lambda>t. clock s 0 - 3600000 < t)
                     (case rateLimits s (mail @ '':verification'') of None \<Rightarrow> [] | Some a \<Rightarrow> a)"
  define s4 where "s4 = s\<lparr>rateLimits := (rateLimits s)(mail @ '':verification'' \<mapsto> recent @ [clock s 0]),
      random := (\<lambda>n. random s (Suc n)),
      clock := (\<lambda>n. clock s (Suc (Suc n))),
      verificationCodes := (verificationCodes s)
        (mail \<mapsto> \<lparr>code = c, expiresAt = clock s (Suc 0) + 600000, attempts = 0\<rparr>)\<rparr>"
  define msg where "msg = \<lparr>to = mail, content = VerificationMail nm c\<rparr>"
  have nl: "\<not> 3 \<le> length recent" using limit by (simp add: recent_def)
  have eq: "sendVerificationCode mail nm s =
              (case sendEmailWithRetry msg ''verification'' 3 s4 of
                 (Inl e, s5) \<Rightarrow> (Inl e, s5)
               | (Inr None, s5) \<Rightarrow> (Inl TypeError, s5)
               | (Inr (Some (emailId, n)), s5) \<Rightarrow> (Inr (clock s (Suc 0) + 600000, emailId), s5))"
    using nl code
    by (simp add: sendVerificationCode_def checkRateLimit_result Let_def Math_random_def
          Date_now_def recent_def[symmetric] s4_def msg_def)
  have m: "mailer s4 0 \<noteq> None" "mailer s4 (Suc 0) \<noteq> None" "mailer s4 (Suc (Suc 0)) \<noteq> None"
    using fail by (simp_all add: s4_def)
  obtain r s5 where p: "sendEmailWithRetry msg ''verification'' 3 s4 = (r, s5)"
    by (cases "sendEmailWithRetry msg ''verification'' 3 s4")
  have r: "r = Inl (DeliveryFailed 3 (errorMsg_of (mailer s (Suc (Suc 0)))))"
    using sendEmailWithRetry_three_failures(1)[OF m, of msg "''verification''"] p by (simp add: s4_def)
  have f: "map_of (failedEmails s5) (clock s (Suc (Suc 0)), suffixes s 0) \<noteq> None"
    using sendEmailWithRetry_three_failures(4)[OF m, of msg "''verification''"] p by (simp add: s4_def)
  have st: "stores s5 = stores s4"
    using sendEmailWithRetry_stores[of msg "''verification''" 3 s4] p by simp
  have res: "sendVerificationCode mail nm s =
               (Inl (DeliveryFailed 3 (errorMsg_of (mailer s (Suc (Suc 0))))), s5)"
    unfolding eq p r by simp
  show "fst (sendVerificationCode mail nm s) = Inl (DeliveryFailed 3 (errorMsg_of (mailer s (Suc (Suc 0)))))"
    by (simp add: res)
  show "users (snd (sendVerificationCode mail nm s)) = users s"
    using storesD[OF st] by (simp add: res s4_def)
  show "heap (snd (sendVerificationCode mail nm s)) = heap s"
    using storesD[OF st] by (simp add: res s4_def)
  show "rateLimits (snd (sendVerificationCode mail nm s)) (mail @ '':verification'') =
           Some (filter (\<lambda>t. clock s 0 - 3600000 < t)
                   (case rateLimits s (mail @ '':verification'') of None \<Rightarrow> [] | Some a \<Rightarrow> a) @ [clock s 0])"
    using storesD[OF st] by (simp add: res s4_def recent_def)
  show "verificationCodes (snd (sendVerificationCode mail nm s)) mail =
           Some \<lparr>code = c, expiresAt = clock s (Suc 0) + 600000, attempts = 0\<rparr>"
    using storesD[OF st] by (simp add: res s4_def)
  show "i = (clock s (Suc (Suc 0)), suffixes s 0) \<Longrightarrow>
           map_of (failedEmails (snd (sendVerificationCode mail nm s))) i \<noteq> None"
    using f by (simp add: res)
qed

text \<open>An admitted issuance stores the generated code, whatever the transport does.\<close>

lemma sendVerificationCode_stores_code:
  assumes limit: "length (filter (\<lambda>t. clock s 0 - 3600000 < t)
                     (case rateLimits s (mail @ '':verification'') of None \<Rightarrow> [] | Some a \<Rightarrow> a)) < 3"
    and code: "generateVerificationCode (Num (random s 0)) = Some c"
  shows "verificationCodes (snd (sendVerificationCode mail nm s)) mail =
           Some \<lparr>code = c, expiresAt = clock s (Suc 0) + 600000, attempts = 0\<rparr>"
proof -
  define recent where "recent = filter (\<lambda>t. clock s 0 - 3600000 < t)
                     (case rateLimits s (mail @ '':verification'') of None \<Rightarrow> [] | Some a \<Rightarrow> a)"
  define s4 where "s4 = s\<lparr>rateLimits := (rateLimits s)(mail @ '':verification'' \<mapsto> recent @ [clock s 0]),
      random := (\<lambda>n. random s (Suc n)),
      clock := (\<lambda>n. clock s (Suc (Suc n))),
      verificationCodes := (verificationCodes s)
        (mail \<mapsto> \<lparr>code = c, expiresAt = clock s (Suc 0) + 600000, attempts = 0\<rparr>)\<rparr>"
  define msg where "msg = \<lparr>to = mail, content = VerificationMail nm c\<rparr>"
  have nl: "\<not> 3 \<le> length recent" using limit by (simp add: recent_def)
  have eq: "sendVerificationCode mail nm s =
              (case sendEmailWithRetry msg ''verification'' 3 s4 of
                 (Inl e, s5) \<Rightarrow> (Inl e, s5)
               | (Inr None, s5) \<Rightarrow> (Inl TypeError, s5)
               | (Inr (Some (emailId, n)), s5) \<Rightarrow> (Inr (clock s (Suc 0) + 600000, emailId), s5))"
    using nl code
    by (simp add: sendVerificationCode_def checkRateLimit_result Let_def Math_random_def
          Date_now_def recent_def[symmetric] s4_def msg_def)
  obtain r s5 where p: "sendEmailWithRetry msg ''verification'' 3 s4 = (r, s5)"
    by (cases "sendEmailWithRetry msg ''verification'' 3 s4")
  have st: "stores s5 = stores s4"
    using sendEmailWithRetry_stores[of msg "''verification''" 3 s4] p by simp
  have "snd (sendVerificationCode mail nm s) = s5"
    unfolding eq p by (auto split: sum.splits option.splits)
  then show ?thesis
    using storesD[OF st] by (simp add: s4_def)
qed

section \<open>Requests in the transaction map\<close>

lemma involved_update:
  "\<not> involved e v \<Longrightarrow> distinct (map fst xs) \<Longrightarrow>
     filter (involved e) (map snd (AList.update k v xs)) =
     filter (involved e) (map snd (AList.delete k xs))"
  by (induction xs) auto

lemma request_not_involved:
  "senderEmail tx = None \<Longrightarrow> recipientEmail tx = None \<Longrightarrow> \<not> involved e tx"
  by (simp add: involved_def)

section \<open>Ledger\<close>

text \<open>
  C1, as the code has it. Let \<open>A\<close> be a verified account with balance \<open>b\<close>, let
  \<open>0 < amt \<le> b\<close>, and let the recipient \<open>B\<close> be a non-empty email that is not the
  sender's own account. Then \<open>send\<close> succeeds and returns the sender's new balance, which
  is \<open>b - amt\<close> in double arithmetic (\<open>js_sub\<close>: the double nearest to the difference);
  when \<open>B\<close> has an account its balance becomes its old balance plus \<open>amt\<close> in double
  arithmetic (\<open>js_add\<close>); and the transaction stored under the new id has status
  \<open>completed\<close> and the amount \<open>amt\<close> itself.
\<close>

theorem send_between_accounts:
  assumes "users s A = Some ra" and "verified (heap s ra)" and "balance (heap s ra) = b"
    and "js_less (Num 0) amt" and "js_less_eq amt b"
    and "B \<noteq> []" and "users s B \<noteq> Some ra"
  shows "case send A (Some B) (Some amt) nt s of
           (resp, s') \<Rightarrow>
             (\<exists>tx. resp = PaymentSent tx (js_sub b amt) \<and> amount tx = amt \<and> status tx = ''completed'') \<and>
             balance (heap s' ra) = js_sub b amt \<and>
             (\<forall>rb. users s B = Some rb \<longrightarrow>
                   balance (heap s' rb) = js_add (balance (heap s rb)) amt) \<and>
             (\<exists>tx. map_of (transactions s') (''TX-'' @ txids s 0) = Some tx \<and>
                   senderEmail tx = Some A \<and> recipientEmail tx = Some B \<and>
                   amount tx = amt \<and> status tx = ''completed'') \<and>
             users s' = users s"
  using assms js_less_eq_not_less[of amt b] js_positive[of amt]
  by (auto simp: send_def Let_def split_def generateTransactionId_def randomBytes_hex_def
        Date_now_def parseFloat_def update_conv' split: option.splits)

text \<open>The theorem at Alice sending 25 to Bob.\<close>

theorem send_between_accounts_witness:
  "case send ''alice@example.com'' (Some ''bob@example.com'') (Some (Num 25)) None example_bank of
     (resp, s') \<Rightarrow>
       (\<exists>tx. resp = PaymentSent tx (Num 75) \<and> amount tx = Num 25 \<and> status tx = ''completed'') \<and>
       balance (heap s' 0) = Num 75 \<and>
       balance (heap s' 1) = js_add (to_double (101 / 10)) (Num 25) \<and>
       (\<exists>tx. map_of (transactions s') ''TX-0123456789AB'' = Some tx \<and>
             senderEmail tx = Some ''alice@example.com'' \<and>
             recipientEmail tx = Some ''bob@example.com'' \<and>
             amount tx = Num 25 \<and> status tx = ''completed'') \<and>
       users s' = users example_bank"
  using send_between_accounts[where s = example_bank and A = "''alice@example.com''" and ra = 0
      and b = "Num 100" and amt = "Num 25" and B = "''bob@example.com''" and nt = None]
  by (simp add: example_bank_def example_server_def alice_def bob_def js_sub_def double_values)

text \<open>
  The claim as the specification states it fails twice. Alice, with balance 100, sending
  50 to her own address is debited and credited through the same object and ends with
  100, not with 50. Carol, with balance 10.30, sending 0.20 ends with
  10.100000000000001: neither the exact difference of the two doubles nor the double of
  10.10.
\<close>

theorem send_self_and_drift_counterexample:
  "balance (heap (snd (send ''alice@example.com'' (Some ''alice@example.com'') (Some (Num 50)) None example_bank)) 0)
     = Num 100 \<and>
   js_sub (Num 100) (Num 50) = Num 50 \<and>
   balance (heap example_bank 2) = Num (2899192260119757 / 281474976710656) \<and>
   to_double (1 / 5) = Num (3602879701896397 / 18014398509481984) \<and>
   balance (heap (snd (send ''carol@example.com'' (Some ''bob@example.com'') (Some (to_double (1 / 5))) None example_bank)) 2)
     \<noteq> Num (2899192260119757 / 281474976710656 - 3602879701896397 / 18014398509481984) \<and>
   balance (heap (snd (send ''carol@example.com'' (Some ''bob@example.com'') (Some (to_double (1 / 5))) None example_bank)) 2)
     \<noteq> to_double (101 / 10)"
  by (simp add: send_def Let_def split_def generateTransactionId_def randomBytes_hex_def
        Date_now_def parseFloat_def example_bank_def example_server_def alice_def bob_def carol_def
        js_sub_def double_values)

text \<open>
  C2. A sender whose account is not verified is answered 403 with the code
  \<open>EMAIL_NOT_VERIFIED\<close>, whatever the balance, for every non-empty recipient and every
  positive amount, and the state is left as it was: the test comes before the balance
  test, so the answer is never \<open>Insufficient funds\<close>, and no balance changes.
\<close>

theorem send_unverified:
  assumes "users s A = Some ra" and "\<not> verified (heap s ra)"
    and "B \<noteq> []" and "js_less (Num 0) amt"
  shows "send A (Some B) (Some amt) nt s =
           (ErrorResponse 403 ''Please verify your email address before sending money''
              (Some ''EMAIL_NOT_VERIFIED''), s)"
  using assms by (cases amt) (simp_all add: send_def)

text \<open>The theorem at Bob, who is not verified, sending 5 to Alice.\<close>

theorem send_unverified_witness:
  "send ''bob@example.com'' (Some ''alice@example.com'') (Some (Num 5)) None example_bank =
     (ErrorResponse 403 ''Please verify your email address before sending money''
        (Some ''EMAIL_NOT_VERIFIED''), example_bank)"
  using send_unverified[where s = example_bank and A = "''bob@example.com''" and ra = 1
      and B = "''alice@example.com''" and amt = "Num 5" and nt = None]
  by (simp add: example_bank_def example_server_def bob_def)

text \<open>
  C3. Take a send that passes every check, and let a receipt delivery fail for good: the
  sender's receipt on all three attempts, or, after the sender's receipt was delivered at
  its first, second or third attempt, the receipt of a recipient with an account on all
  three attempts. The send still answers with the payment summary, which is the stored
  record without the sender's email and name, and with the sender's balance as it is
  stored at the end. The balances at the end are the debited and credited ones (written
  through the references, so that a recipient who is the sender is debited and credited
  on the same object), the accounts are unchanged, and the record is stored under the new
  id with status \<open>completed\<close>. The failure shows only in the delivery log, whose last
  entry is unsuccessful, and in \<open>failedEmails\<close>.
\<close>

theorem send_receipt_failure_not_fatal:
  assumes "users s A = Some ra" and "verified (heap s ra)"
    and "js_less (Num 0) amt" and "js_less_eq amt (balance (heap s ra))" and "B \<noteq> []"
    and "(mailer s 0 \<noteq> None \<and> mailer s 1 \<noteq> None \<and> mailer s 2 \<noteq> None) \<or>
         (users s B \<noteq> None \<and>
          (\<exists>k<3. (\<forall>j<k. mailer s j \<noteq> None) \<and> mailer s k = None \<and>
                 mailer s (k + 1) \<noteq> None \<and> mailer s (k + 2) \<noteq> None \<and> mailer s (k + 3) \<noteq> None))"
  shows "case send A (Some B) (Some amt) nt s of
           (resp, s') \<Rightarrow>
             (let tx = \<lparr>tx_id = ''TX-'' @ txids s 0,
                        senderEmail = Some A, senderName = Some (name (heap s ra)),
                        recipientEmail = Some B,
                        recipientName = Some (case users s B of
                                                Some rb \<Rightarrow> name (heap s rb)
                                              | None \<Rightarrow> takeWhile (\<lambda>c. c \<noteq> CHR ''@'') B),
                        requesterEmail = None, requesterName = None, requesteeEmail = None,
                        amount = amt, tx_note = (case nt of None \<Rightarrow> [] | Some n \<Rightarrow> n),
                        timestamp = clock s 0, status = ''completed''\<rparr>;
                  debited = (heap s)(ra := (heap s ra)\<lparr>balance := js_sub (balance (heap s ra)) amt\<rparr>);
                  credited = (case users s B of
                                None \<Rightarrow> debited
                              | Some rb \<Rightarrow>
                                  debited(rb := (debited rb)\<lparr>balance := js_add (balance (debited rb)) amt\<rparr>))
              in resp = PaymentSent (tx\<lparr>senderEmail := None, senderName := None\<rparr>) (balance (heap s' ra)) \<and>
                 heap s' = credited \<and>
                 (users s B \<noteq> Some ra \<longrightarrow> balance (heap s' ra) = js_sub (balance (heap s ra)) amt) \<and>
                 (\<forall>rb. users s B = Some rb \<and> rb \<noteq> ra \<longrightarrow>
                       balance (heap s' rb) = js_add (balance (heap s rb)) amt) \<and>
                 users s' = users s \<and>
                 transactions s' = AList.update (''TX-'' @ txids s 0) tx (transactions s) \<and>
                 map_of (transactions s') (''TX-'' @ txids s 0) = Some tx \<and>
                 emailLogs s' \<noteq> [] \<and> \<not> success (last (emailLogs s')) \<and> failedEmails s' \<noteq> [])"
  using assms js_less_eq_not_less[of amt "balance (heap s ra)"] js_positive[of amt]
  by (cases "users s B")
     (simp_all add: send_def Let_def split_def generateTransactionId_def randomBytes_hex_def
        Date_now_def parseFloat_def send_receipts_fail update_conv')

text \<open>
  The theorem at Alice sending 25 to Bob, with a transport that fails on the first
  attempt of Alice's receipt, delivers it at the second, and fails on all three attempts
  of Bob's receipt.
\<close>

theorem send_receipt_failure_not_fatal_witness:
  "case send ''alice@example.com'' (Some ''bob@example.com'') (Some (Num 25)) None example_bank_flaky of
     (resp, s') \<Rightarrow>
       resp = PaymentSent
                \<lparr>tx_id = ''TX-0123456789AB'', senderEmail = None, senderName = None,
                 recipientEmail = Some ''bob@example.com'', recipientName = Some ''Bob'',
                 requesterEmail = None, requesterName = None, requesteeEmail = None,
                 amount = Num 25, tx_note = [], timestamp = 1700000000000,
                 status = ''completed''\<rparr> (Num 75) \<and>
       balance (heap s' 0) = Num 75 \<and>
       balance (heap s' 1) = js_add (to_double (101 / 10)) (Num 25) \<and>
       balance (heap s' 2) = to_double (103 / 10) \<and>
       users s' = users example_bank \<and>
       transactions s' =
         [(''TX-0123456789AB'',
           \<lparr>tx_id = ''TX-0123456789AB'', senderEmail = Some ''alice@example.com'',
            senderName = Some ''Alice'',
            recipientEmail = Some ''bob@example.com'', recipientName = Some ''Bob'',
            requesterEmail = None, requesterName = None, requesteeEmail = None,
            amount = Num 25, tx_note = [], timestamp = 1700000000000,
            status = ''completed''\<rparr>)] \<and>
       emailLogs s' \<noteq> [] \<and> \<not> success (last (emailLogs s')) \<and> failedEmails s' \<noteq> []"
proof -
  have "\<exists>k<3. (\<forall>j<k. mailer example_bank_flaky j \<noteq> None) \<and> mailer example_bank_flaky k = None \<and>
           mailer example_bank_flaky (k + 1) \<noteq> None \<and> mailer example_bank_flaky (k + 2) \<noteq> None \<and>
           mailer example_bank_flaky (k + 3) \<noteq> None"
    by (intro exI[of _ 1]) (simp add: example_bank_flaky_def)
  then show ?thesis
    using send_receipt_failure_not_fatal[where s = example_bank_flaky and A = "''alice@example.com''"
      and ra = 0 and amt = "Num 25" and B = "''bob@example.com''" and nt = None]
    by (simp add: example_bank_flaky_def example_bank_def example_server_def alice_def bob_def carol_def
          js_sub_def double_values split_def Let_def)
qed

section \<open>Delivery pipeline\<close>

text \<open>
  C4. A delivery whose transport fails three times throws, after having stored one entry
  of \<open>failedEmails\<close> under its id. A retry of that id with a transport that now delivers
  runs a new delivery under a new id, succeeds at its first attempt, and deletes the
  entry of the new id, which does not exist: the entry of the failed delivery is still
  in \<open>failedEmails\<close> after the successful retry.
\<close>

theorem retry_success_keeps_failed_entry:
  "fst (sendEmailWithRetry example_mail ''welcome'' 3 example_server)
     = Inl (DeliveryFailed 3 ''Service Unavailable'') \<and>
   map fst (failedEmails after_failed_delivery) = [(1700000000000, ''k3j2h1g0f'')] \<and>
   fst (retryFailedEmail (1700000000000, ''k3j2h1g0f'') after_failed_delivery)
     = Inr (Some ((1700000006000, ''x9y8z7w6v''), 1)) \<and>
   map fst (failedEmails (snd (retryFailedEmail (1700000000000, ''k3j2h1g0f'') after_failed_delivery)))
     = [(1700000000000, ''k3j2h1g0f'')]"
  by code_simp

text \<open>
  C5. The wait before attempt \<open>n\<close> of a delivery is \<open>Math.pow(2, n - 2) * 2000\<close> ms for
  \<open>n > 1\<close>: nothing before the first attempt, 2000 ms before the second and 4000 ms
  before the third, as a delivery with three failures shows. The comment above the
  computation announces 8 s for the third attempt; the expression yields 4 s.
\<close>

theorem backoff_delay_third_attempt:
  "backoff_delay 1 = 0 \<and> backoff_delay 2 = 2000 \<and> backoff_delay 3 = 4000 \<and>
   backoff_delay 3 \<noteq> 8000 \<and> slept after_failed_delivery = [2000, 4000]"
  using sendEmailWithRetry_three_failures(5)[of example_server example_mail "''welcome''"]
  by (simp add: backoff_delay_def after_failed_delivery_def) (simp add: example_server_def)

section \<open>Verification codes\<close>

text \<open>
  C6, as the code has it. Three checks with wrong codes, none of them after the expiry,
  each fail with \<open>InvalidCode\<close> and leave the record stored, with its counter at 3. The
  fourth check, made in time and with the right code, finds the record, fails with
  \<open>AttemptsExhausted\<close> and deletes it; only the check after that one fails with
  \<open>VerificationNotFound\<close>.
\<close>

theorem verifyCode_three_wrong_then_exhausted:
  assumes "verificationCodes s mail = Some v" and "attempts v = 0"
    and "c1 \<noteq> code v" and "c2 \<noteq> code v" and "c3 \<noteq> code v"
    and "clock s 0 \<le> expiresAt v" and "clock s 1 \<le> expiresAt v"
    and "clock s 2 \<le> expiresAt v" and "clock s 3 \<le> expiresAt v"
  shows "let (r1, s1) = verifyCode mail c1 s;
             (r2, s2) = verifyCode mail c2 s1;
             (r3, s3) = verifyCode mail c3 s2;
             (r4, s4) = verifyCode mail (code v) s3;
             (r5, s5) = verifyCode mail c5 s4
         in r1 = Inl InvalidCode \<and> r2 = Inl InvalidCode \<and> r3 = Inl InvalidCode \<and>
            verificationCodes s3 mail = Some (v\<lparr>attempts := 3\<rparr>) \<and>
            r4 = Inl AttemptsExhausted \<and> verificationCodes s4 mail = None \<and>
            r5 = Inl VerificationNotFound"
  using assms by (simp add: verifyCode_def Date_now_def Let_def eval_nat_numeral)

text \<open>The theorem at a record for Alice with the code 123456.\<close>

theorem verifyCode_three_wrong_then_exhausted_witness:
  "let (r1, s1) = verifyCode ''alice@example.com'' ''000000'' example_codes;
       (r2, s2) = verifyCode ''alice@example.com'' ''111111'' s1;
       (r3, s3) = verifyCode ''alice@example.com'' ''222222'' s2;
       (r4, s4) = verifyCode ''alice@example.com'' ''123456'' s3;
       (r5, s5) = verifyCode ''alice@example.com'' ''123456'' s4
   in r1 = Inl InvalidCode \<and> r2 = Inl InvalidCode \<and> r3 = Inl InvalidCode \<and>
      verificationCodes s3 ''alice@example.com''
        = Some \<lparr>code = ''123456'', expiresAt = 1700000600000, attempts = 3\<rparr> \<and>
      r4 = Inl AttemptsExhausted \<and> verificationCodes s4 ''alice@example.com'' = None \<and>
      r5 = Inl VerificationNotFound"
  using verifyCode_three_wrong_then_exhausted
    [of example_codes "''alice@example.com''"
        "\<lparr>code = ''123456'', expiresAt = 1700000600000, attempts = 0\<rparr>"
        "''000000''" "''111111''" "''222222''" "''123456''"]
  by (simp add: example_codes_def example_server_def)

text \<open>
  The claim as the specification states it fails: after three wrong checks the record is
  still stored, and the fourth check with the right code is answered with
  \<open>AttemptsExhausted\<close>, not with \<open>VerificationNotFound\<close>.
\<close>

theorem verifyCode_fourth_check_counterexample:
  "verificationCodes after_three_wrong_codes ''alice@example.com'' \<noteq> None \<and>
   fst (verifyCode ''alice@example.com'' ''123456'' after_three_wrong_codes) = Inl AttemptsExhausted \<and>
   fst (verifyCode ''alice@example.com'' ''123456'' after_three_wrong_codes) \<noteq> Inl VerificationNotFound"
  by code_simp

text \<open>
  C7, as the code has it. Let \<open>r\<close> be a value of \<open>Math.random()\<close>, a double in \<open>[0, 1)\<close>.
  The code is the decimal numeral of an integer between 100000 and 999999: six characters,
  never padded, the first of them never \<open>0\<close>. It is \<open>100000 + \<lfloor>900000 r\<rfloor>\<close>, or one more than
  that for an \<open>r\<close> whose product \<open>900000 r\<close> is less than \<open>2\<^sup>-\<^sup>3\<^sup>3\<close> below the next integer
  (where the two roundings may carry it over): each code of the range is drawn for the
  values of \<open>r\<close> in an interval of length \<open>1 / 900000\<close>, up to \<open>2\<^sup>-\<^sup>3\<^sup>3 / 900000\<close> at its ends, so a
  uniform \<open>r\<close> gives the 900000 codes equal chances up to that rounding. An issuance that
  the rate limit admits stores the code of the \<open>r\<close> it draws. And every integer between
  100000 and 999999 is the code of some double \<open>r\<close> in \<open>[0, 1)\<close>.
\<close>

theorem generateVerificationCode_uniform_six_digits:
  "(is_double r \<and> 0 \<le> r \<and> r < 1 \<longrightarrow>
      (\<exists>k. generateVerificationCode (Num r) = Some (show_digits k) \<and>
           100000 \<le> k \<and> k \<le> 999999 \<and>
           length (show_digits k) = 6 \<and> hd (show_digits k) \<noteq> CHR ''0'') \<and>
      (generateVerificationCode (Num r) = Some (show_digits (100000 + \<lfloor>r * 900000\<rfloor>)) \<or>
       of_int \<lfloor>r * 900000\<rfloor> + 1 - 2 powi (- 33) < r * 900000 \<and>
       generateVerificationCode (Num r) = Some (show_digits (100000 + \<lfloor>r * 900000\<rfloor> + 1))) \<and>
      (random s 0 = r \<and>
       length (filter (\<lambda>t. clock s 0 - 3600000 < t)
                 (case rateLimits s (mail @ '':verification'') of None \<Rightarrow> [] | Some a \<Rightarrow> a)) < 3 \<longrightarrow>
         (\<exists>c. generateVerificationCode (Num r) = Some c \<and>
              verificationCodes (snd (sendVerificationCode mail nm s)) mail =
                Some \<lparr>code = c, expiresAt = clock s 1 + 600000, attempts = 0\<rparr>))) \<and>
   (100000 \<le> k \<and> k \<le> 999999 \<longrightarrow>
      (\<exists>r. is_double r \<and> 0 \<le> r \<and> r < 1 \<and>
           generateVerificationCode (Num r) = Some (show_digits k)))"
proof (intro conjI impI)
  assume r: "is_double r \<and> 0 \<le> r \<and> r < 1"
  then obtain n where n: "generateVerificationCode (Num r) = Some (show_digits n)"
      "100000 \<le> n" "n \<le> 999999"
    using generateVerificationCode_range[of r] by blast
  then show "\<exists>k. generateVerificationCode (Num r) = Some (show_digits k) \<and>
           100000 \<le> k \<and> k \<le> 999999 \<and>
           length (show_digits k) = 6 \<and> hd (show_digits k) \<noteq> CHR ''0''"
    using show_digits_six[of n] by blast
  show "generateVerificationCode (Num r) = Some (show_digits (100000 + \<lfloor>r * 900000\<rfloor>)) \<or>
       of_int \<lfloor>r * 900000\<rfloor> + 1 - 2 powi (- 33) < r * 900000 \<and>
       generateVerificationCode (Num r) = Some (show_digits (100000 + \<lfloor>r * 900000\<rfloor> + 1))"
    using r by (intro generateVerificationCode_floor) simp_all
  assume i: "random s 0 = r \<and>
       length (filter (\<lambda>t. clock s 0 - 3600000 < t)
                 (case rateLimits s (mail @ '':verification'') of None \<Rightarrow> [] | Some a \<Rightarrow> a)) < 3"
  then have "generateVerificationCode (Num (random s 0)) = Some (show_digits n)"
    using n(1) by simp
  from sendVerificationCode_stores_code[OF _ this, of mail nm] i n(1)
  show "\<exists>c. generateVerificationCode (Num r) = Some c \<and>
              verificationCodes (snd (sendVerificationCode mail nm s)) mail =
                Some \<lparr>code = c, expiresAt = clock s 1 + 600000, attempts = 0\<rparr>"
    by simp
next
  assume "100000 \<le> k \<and> k \<le> 999999"
  then show "\<exists>r. is_double r \<and> 0 \<le> r \<and> r < 1 \<and>
           generateVerificationCode (Num r) = Some (show_digits k)"
    using generateVerificationCode_onto[of k] by simp
qed

text \<open>
  The theorem at \<open>Math.random() = 0.5\<close>, which gives \<open>550000\<close>, at an issuance for Alice
  that draws it, and at the code \<open>123456\<close>.
\<close>

theorem generateVerificationCode_uniform_six_digits_witness:
  "generateVerificationCode (Num (1 / 2)) = Some ''550000'' \<and>
   verificationCodes (snd (sendVerificationCode ''alice@example.com'' ''Alice'' example_server))
     ''alice@example.com'' = Some \<lparr>code = ''550000'', expiresAt = 1700000601000, attempts = 0\<rparr> \<and>
   (\<exists>r. is_double r \<and> 0 \<le> r \<and> r < 1 \<and> generateVerificationCode (Num r) = Some ''123456'')"
  using generateVerificationCode_uniform_six_digits[of "1 / 2" example_server "''alice@example.com''" "''Alice''" 123456]
    is_double_half
  by (auto simp: show_digits_values pow2_m33 example_server_def)

text \<open>
  The claim as the specification states it fails: no value of \<open>Math.random()\<close> yields
  the code \<open>012345\<close>.
\<close>

theorem generateVerificationCode_leading_zero_counterexample:
  "\<not> (\<exists>r. is_double r \<and> 0 \<le> r \<and> r < 1 \<and> generateVerificationCode (Num r) = Some ''012345'')"
proof
  assume "\<exists>r. is_double r \<and> 0 \<le> r \<and> r < 1 \<and> generateVerificationCode (Num r) = Some ''012345''"
  then obtain r where r: "is_double r" "0 \<le> r" "r < 1"
    and c: "generateVerificationCode (Num r) = Some ''012345''" by blast
  obtain k where k: "generateVerificationCode (Num r) = Some (show_digits k)"
      "100000 \<le> k" "k \<le> 999999"
    using generateVerificationCode_range[OF r] by blast
  have "hd (show_digits k) \<noteq> CHR ''0''" using show_digits_six[OF k(2,3)] by simp
  moreover have "show_digits k = ''012345''" using c k(1) by simp
  ultimately show False by simp
qed

section \<open>Rate limit\<close>



section \<open>Requests\<close>

text \<open>
  C9. A request that passes the checks stores, under its new id, an object with
  \<open>requesterEmail\<close> and \<open>requesteeEmail\<close> and with neither \<open>senderEmail\<close> nor
  \<open>recipientEmail\<close>. For every email, the transaction details of that id are refused
  with 403 \<open>Access denied\<close>, and the history is the history of the map without that id:
  the request appears in nobody's history. The keys of \<open>transactions\<close> are distinct, as
  those of a Map are.
\<close>

theorem request_invisible:
  assumes "users s R = Some r" and "verified (heap s r)"
    and "E \<noteq> []" and "js_less (Num 0) amt"
    and "distinct (map fst (transactions s))"
  shows "case request R (Some E) (Some amt) nt s of
           (resp, s') \<Rightarrow>
             (\<exists>rq. map_of (transactions s') (''TX-'' @ txids s 0) = Some rq \<and>
                   requesterEmail rq = Some R \<and> requesteeEmail rq = Some E \<and>
                   senderEmail rq = None \<and> recipientEmail rq = None \<and>
                   status rq = ''pending'') \<and>
             (\<forall>e. get_transaction (''TX-'' @ txids s 0) e s' = ErrorResponse 403 ''Access denied'' None) \<and>
             (\<forall>e. history e s' =
                  history e (s\<lparr>transactions := AList.delete (''TX-'' @ txids s 0) (transactions s)\<rparr>))"
  using assms
  by (cases amt)
     (simp_all add: request_def generateTransactionId_def randomBytes_hex_def Date_now_def
        Let_def update_conv' get_transaction_def history_def involved_update involved_def)

text \<open>The theorem at Alice requesting 25 from Bob on a server without transactions.\<close>

theorem request_invisible_witness:
  "case request ''alice@example.com'' (Some ''bob@example.com'') (Some (Num 25)) None example_bank of
     (resp, s') \<Rightarrow>
       (\<exists>rq. map_of (transactions s') ''TX-0123456789AB'' = Some rq \<and>
             requesterEmail rq = Some ''alice@example.com'' \<and>
             requesteeEmail rq = Some ''bob@example.com'' \<and>
             senderEmail rq = None \<and> recipientEmail rq = None \<and> status rq = ''pending'') \<and>
       (\<forall>e. get_transaction ''TX-0123456789AB'' e s' = ErrorResponse 403 ''Access denied'' None) \<and>
       (\<forall>e. history e s' = TransactionList [])"
  using request_invisible[where s = example_bank and R = "''alice@example.com''" and r = 0
      and E = "''bob@example.com''" and amt = "Num 25" and nt = None]
  by (simp add: example_bank_def example_server_def alice_def history_def)

section \<open>Registration\<close>

text \<open>
  C10. Let a registration pass its checks (all fields present, email unknown, password of
  8 characters or more), let the rate limit admit the email, and let the transport fail
  on the three attempts of the verification email. The response is 500 with the message
  of the delivery failure; yet the account is stored (balance 0, not verified), the
  rate-limit window holds the time of this issuance, the verification record with the
  generated code is stored, and the failed message is parked in \<open>failedEmails\<close>.
\<close>

theorem register_not_atomic:
  assumes fields: "nm \<noteq> []" "mail \<noteq> []" "ph \<noteq> []" "8 \<le> length pw"
    and new: "users s mail = None"
    and limit: "length (filter (\<lambda>t. clock s 1 - 3600000 < t)
                     (case rateLimits s (mail @ '':verification'') of None \<Rightarrow> [] | Some a \<Rightarrow> a)) < 3"
    and rnd: "is_double (random s 0)" "0 \<le> random s 0" "random s 0 < 1"
    and fail: "mailer s 0 \<noteq> None" "mailer s 1 \<noteq> None" "mailer s 2 \<noteq> None"
  shows "case register (Some nm) (Some mail) (Some ph) (Some pw) s of
           (resp, s') \<Rightarrow>
             resp = ErrorResponse 500 (message (DeliveryFailed 3 (errorMsg_of (mailer s 2)))) None \<and>
             users s' mail = Some (allocated s) \<and>
             heap s' (allocated s) =
               \<lparr>user_id = uuids s 0, name = nm, email = mail, phone = ph, password = hashes s 0,
                  verified = False, balance = Num 0, createdAt = clock s 0\<rparr> \<and>
             rateLimits s' (mail @ '':verification'') =
               Some (filter (\<lambda>t. clock s 1 - 3600000 < t)
                       (case rateLimits s (mail @ '':verification'') of None \<Rightarrow> [] | Some a \<Rightarrow> a)
                     @ [clock s 1]) \<and>
             (\<exists>c. generateVerificationCode (Num (random s 0)) = Some c \<and>
                  verificationCodes s' mail =
                    Some \<lparr>code = c, expiresAt = clock s 2 + 600000, attempts = 0\<rparr>) \<and>
             map_of (failedEmails s') (clock s 3, suffixes s 0) \<noteq> None"
proof -
  obtain k where c: "generateVerificationCode (Num (random s 0)) = Some (show_digits k)"
    using generateVerificationCode_range[OF rnd] by blast
  have pw: "pw \<noteq> []" using fields(4) by auto
  define u where "u = \<lparr>user_id = uuids s 0, name = nm, email = mail, phone = ph,
      password = hashes s 0, verified = False, balance = Num 0, createdAt = clock s 0\<rparr>"
  define s4 where "s4 = s\<lparr>hashes := (\<lambda>n. hashes s (Suc n)), uuids := (\<lambda>n. uuids s (Suc n)),
      clock := (\<lambda>n. clock s (Suc n)), users := (users s)(mail \<mapsto> allocated s),
      heap := (heap s)(allocated s := u), allocated := Suc (allocated s)\<rparr>"
  have eq: "register (Some nm) (Some mail) (Some ph) (Some pw) s =
              (case sendVerificationCode mail nm s4 of
                 (Inl e, s5) \<Rightarrow>
                   (ErrorResponse 500 (if message e = [] then ''Registration failed'' else message e) None, s5)
               | (Inr _, s5) \<Rightarrow> (Registered (uuids s 0), s5))"
    using fields pw new
    by (simp add: register_def Let_def bcrypt_hash_def uuidv4_def Date_now_def s4_def u_def
          cong del: sum.case_cong_weak prod.case_cong_weak)
  have l4: "length (filter (\<lambda>t. clock s4 0 - 3600000 < t)
              (case rateLimits s4 (mail @ '':verification'') of None \<Rightarrow> [] | Some a \<Rightarrow> a)) < 3"
    using limit by (simp add: s4_def)
  have c4: "generateVerificationCode (Num (random s4 0)) = Some (show_digits k)"
    using c by (simp add: s4_def)
  have m4: "mailer s4 0 \<noteq> None" "mailer s4 (Suc 0) \<noteq> None" "mailer s4 (Suc (Suc 0)) \<noteq> None"
    using fail by (simp_all add: s4_def eval_nat_numeral)
  note f = sendVerificationCode_delivery_failure[OF l4 c4 m4, where nm = nm]
  obtain r s5 where p: "sendVerificationCode mail nm s4 = (r, s5)"
    by (cases "sendVerificationCode mail nm s4")
  have r: "r = Inl (DeliveryFailed 3 (errorMsg_of (mailer s 2)))"
    using f(1) p by (simp add: s4_def eval_nat_numeral)
  have res: "register (Some nm) (Some mail) (Some ph) (Some pw) s =
               (ErrorResponse 500 (message (DeliveryFailed 3 (errorMsg_of (mailer s 2)))) None, s5)"
    unfolding eq p r by simp
  have 1: "users s5 mail = Some (allocated s)" using f(2) p by (simp add: s4_def)
  have 2: "heap s5 (allocated s) = u" using f(3) p by (simp add: s4_def)
  have 3: "rateLimits s5 (mail @ '':verification'') =
             Some (filter (\<lambda>t. clock s 1 - 3600000 < t)
                     (case rateLimits s (mail @ '':verification'') of None \<Rightarrow> [] | Some a \<Rightarrow> a)
                   @ [clock s 1])"
    using f(4) p by (simp add: s4_def)
  have 4: "verificationCodes s5 mail =
             Some \<lparr>code = show_digits k, expiresAt = clock s 2 + 600000, attempts = 0\<rparr>"
    using f(5) p by (simp add: s4_def eval_nat_numeral)
  have 5: "map_of (failedEmails s5) (clock s 3, suffixes s 0) \<noteq> None"
    using f(6)[where i = "(clock s 3, suffixes s 0)"] p by (simp add: s4_def eval_nat_numeral)
  show ?thesis
    unfolding res using 1 2 3 4 5 c by (simp add: u_def)
qed

text \<open>The theorem at the registration of Dave on the example server, whose transport is down.\<close>

theorem register_not_atomic_witness:
  "case register (Some ''Dave'') (Some ''dave@example.com'') (Some ''+15550000004'')
          (Some ''correct horse'') example_server of
     (resp, s') \<Rightarrow>
       resp = ErrorResponse 500 ''Failed to send email after 3 attempts: Service Unavailable'' None \<and>
       users s' ''dave@example.com'' = Some 0 \<and>
       balance (heap s' 0) = Num 0 \<and> \<not> verified (heap s' 0) \<and>
       rateLimits s' ''dave@example.com:verification'' = Some [1700000001000] \<and>
       (\<exists>c. verificationCodes s' ''dave@example.com'' =
              Some \<lparr>code = c, expiresAt = 1700000602000, attempts = 0\<rparr>) \<and>
       map_of (failedEmails s') (1700000003000, ''k3j2h1g0f'') \<noteq> None"
  using register_not_atomic[where s = example_server and nm = "''Dave''"
      and mail = "''dave@example.com''" and ph = "''+15550000004''" and pw = "''correct horse''"]
    is_double_half
  by (auto simp: example_server_def errorMsg_of_def show_digits.simps digit_char_def)

end
